theory Spec2Isabelle
  imports Main "HOL-Library.Word"
begin

section \<open>The streaming chat session client of MedIA (\<^verbatim>\<open>useChat\<close>)\<close>

text \<open>
  The composable \<^verbatim>\<open>useChat\<close> owns the message sequence and the loading flag of
  one chat session.  Its two operations are \<^verbatim>\<open>sendMessage\<close> (an async function
  that suspends while it awaits \<^verbatim>\<open>fetch\<close> and every \<^verbatim>\<open>reader.read()\<close>) and
  \<^verbatim>\<open>clearMessages\<close>.  The model below follows the source line by line: the
  synchronous sections of \<^verbatim>\<open>sendMessage\<close> are functions on an explicit state, the
  suspension points are events delivered by the environment, and every exception of
  the source is a value.
\<close>

subsection \<open>JavaScript strings\<close>

text \<open>
  A JavaScript string is a sequence of UTF-16 code units.  String literals of the
  source are written through \<open>js\<close>, which maps a character below 256 to the code
  unit of the same number (Latin-1 and UTF-16 agree there).
\<close>

type_synonym jschar = "16 word"
type_synonym jsstring = "jschar list"

definition js :: "string \<Rightarrow> jsstring" where
  "js s = map of_char s"

text \<open>
  \<^verbatim>\<open>String.prototype.trim\<close> strips the code units of WhiteSpace and LineTerminator
  from both ends.
\<close>

definition isWhiteSpace :: "jschar \<Rightarrow> bool" where
  "isWhiteSpace c \<longleftrightarrow>
     c = 0x09 \<or> c = 0x0A \<or> c = 0x0B \<or> c = 0x0C \<or> c = 0x0D \<or> c = 0x20 \<or> c = 0xA0 \<or>
     c = 0x1680 \<or> (0x2000 \<le> c \<and> c \<le> 0x200A) \<or> c = 0x2028 \<or> c = 0x2029 \<or>
     c = 0x202F \<or> c = 0x205F \<or> c = 0x3000 \<or> c = 0xFEFF"

definition trim :: "jsstring \<Rightarrow> jsstring" where
  "trim s = rev (dropWhile isWhiteSpace (rev (dropWhile isWhiteSpace s)))"

text \<open>\<^verbatim>\<open>s.startsWith(p)\<close>, \<^verbatim>\<open>s.slice(n)\<close> for \<open>n \<ge> 0\<close>, and \<^verbatim>\<open>s.split(sep)\<close> for a
  separator of one code unit (never an empty result: the empty string splits into
  one empty piece).\<close>

definition startsWith :: "jsstring \<Rightarrow> jsstring \<Rightarrow> bool" where
  "startsWith s p \<longleftrightarrow> take (length p) s = p"

definition slice :: "nat \<Rightarrow> jsstring \<Rightarrow> jsstring" where
  "slice n s = drop n s"

fun split :: "jschar \<Rightarrow> jsstring \<Rightarrow> jsstring list" where
  "split sep [] = [[]]"
| "split sep (c # cs) =
     (if c = sep then [] # split sep cs
      else (case split sep cs of
              [] \<Rightarrow> [[c]]
            | piece # pieces \<Rightarrow> (c # piece) # pieces))"

subsection \<open>JSON values and \<^verbatim>\<open>JSON.parse\<close>\<close>

text \<open>
  \<^verbatim>\<open>JSON.parse\<close> is the platform's.  It is modelled from the JSON grammar: a lexer
  (\<open>tokenize\<close>) and a pushdown automaton over the tokens (\<open>parseTokens\<close>), both by
  structural recursion on their input.

  The values \<^verbatim>\<open>JSON.parse\<close> can return.  A number is kept as its lexeme: its
  double value is computed by the platform and is not needed to decide where a
  token goes.  An object is the list of its members in source order; a later
  member with the same key overrides an earlier one when a property is read.
\<close>

datatype json =
    JNull
  | JBool bool
  | JNumber jsstring
  | JString jsstring
  | JArray "json list"
  | JObject "(jsstring \<times> json) list"

datatype jtoken =
    TLBrace | TRBrace | TLBracket | TRBracket | TColon | TComma | TScalar json

definition isJSONWhitespace :: "jschar \<Rightarrow> bool" where
  "isJSONWhitespace c \<longleftrightarrow> c = 0x09 \<or> c = 0x0A \<or> c = 0x0D \<or> c = 0x20"

definition isDigit :: "jschar \<Rightarrow> bool" where
  "isDigit c \<longleftrightarrow> 0x30 \<le> c \<and> c \<le> 0x39"

definition hexValue :: "jschar \<Rightarrow> jschar option" where
  "hexValue c =
     (if 0x30 \<le> c \<and> c \<le> 0x39 then Some (c - 0x30)
      else if 0x41 \<le> c \<and> c \<le> 0x46 then Some (c - 0x41 + 10)
      else if 0x61 \<le> c \<and> c \<le> 0x66 then Some (c - 0x61 + 10)
      else None)"

text \<open>The single-character escapes of a JSON string: \<^verbatim>\<open>\" \\ \/ \b \f \n \r \t\<close>.\<close>

definition simpleEscape :: "jschar \<Rightarrow> jschar option" where
  "simpleEscape e =
     (if e = 0x22 then Some 0x22
      else if e = 0x5C then Some 0x5C
      else if e = 0x2F then Some 0x2F
      else if e = 0x62 then Some 0x08
      else if e = 0x66 then Some 0x0C
      else if e = 0x6E then Some 0x0A
      else if e = 0x72 then Some 0x0D
      else if e = 0x74 then Some 0x09
      else None)"

text \<open>
  \<open>lexString cs\<close> reads a string literal whose opening quote has been consumed:
  the decoded string and the number of code units read, closing quote included.
  A code unit below \<open>0x20\<close> must be escaped; an escape \<^verbatim>\<open>\uXXXX\<close> gives one code
  unit.
\<close>

fun lexString :: "jsstring \<Rightarrow> (jsstring \<times> nat) option" where
  "lexString [] = None"
| "lexString (c # cs) =
     (if c = 0x22 then Some ([], 1)
      else if c = 0x5C then
        (case cs of
           [] \<Rightarrow> None
         | e # cs1 \<Rightarrow>
             if e = 0x75 then
               (case cs1 of
                  h1 # h2 # h3 # h4 # cs2 \<Rightarrow>
                    (case (hexValue h1, hexValue h2, hexValue h3, hexValue h4) of
                       (Some a, Some b, Some d, Some f) \<Rightarrow>
                         map_option (\<lambda>(s, n). ((a * 4096 + b * 256 + d * 16 + f) # s, n + 6))
                           (lexString cs2)
                     | _ \<Rightarrow> None)
                | _ \<Rightarrow> None)
             else
               (case simpleEscape e of
                  None \<Rightarrow> None
                | Some d \<Rightarrow> map_option (\<lambda>(s, n). (d # s, n + 2)) (lexString cs1)))
      else if c < 0x20 then None
      else map_option (\<lambda>(s, n). (c # s, n + 1)) (lexString cs))"

text \<open>
  \<open>lexNumber cs\<close> is the length of the longest prefix of \<open>cs\<close> that is a JSON
  number: \<^verbatim>\<open>-? (0 | [1-9][0-9]*) (. [0-9]+)? ([eE] [+-]? [0-9]+)?\<close>.
\<close>

definition digits :: "jsstring \<Rightarrow> nat" where
  "digits cs = length (takeWhile isDigit cs)"

definition lexFraction :: "jsstring \<Rightarrow> nat" where
  "lexFraction cs =
     (case cs of
        [] \<Rightarrow> 0
      | p # r \<Rightarrow> if p = 0x2E \<and> 0 < digits r then 1 + digits r else 0)"

definition lexExponent :: "jsstring \<Rightarrow> nat" where
  "lexExponent cs =
     (case cs of
        [] \<Rightarrow> 0
      | e # r \<Rightarrow>
          if e = 0x65 \<or> e = 0x45 then
            (case r of
               [] \<Rightarrow> 0
             | s # r' \<Rightarrow>
                 if s = 0x2B \<or> s = 0x2D then (if 0 < digits r' then 2 + digits r' else 0)
                 else (if 0 < digits r then 1 + digits r else 0))
          else 0)"

definition lexUnsigned :: "jsstring \<Rightarrow> nat option" where
  "lexUnsigned cs =
     (case cs of
        [] \<Rightarrow> None
      | d # r \<Rightarrow>
          if isDigit d then
            (let i = (if d = 0x30 then 1 else 1 + digits r);
                 f = lexFraction (drop i cs);
                 e = lexExponent (drop (i + f) cs)
             in Some (i + f + e))
          else None)"

definition lexNumber :: "jsstring \<Rightarrow> nat option" where
  "lexNumber cs =
     (case cs of
        [] \<Rightarrow> None
      | c # r \<Rightarrow> if c = 0x2D then map_option Suc (lexUnsigned r) else lexUnsigned cs)"

fun tokenize :: "jsstring \<Rightarrow> jtoken list option" where
  "tokenize [] = Some []"
| "tokenize (c # cs) =
     (if isJSONWhitespace c then tokenize cs
      else if c = 0x7B then map_option (Cons TLBrace) (tokenize cs)
      else if c = 0x7D then map_option (Cons TRBrace) (tokenize cs)
      else if c = 0x5B then map_option (Cons TLBracket) (tokenize cs)
      else if c = 0x5D then map_option (Cons TRBracket) (tokenize cs)
      else if c = 0x3A then map_option (Cons TColon) (tokenize cs)
      else if c = 0x2C then map_option (Cons TComma) (tokenize cs)
      else if c = 0x22 then
        (case lexString cs of
           None \<Rightarrow> None
         | Some (s, n) \<Rightarrow> map_option (Cons (TScalar (JString s))) (tokenize (drop n cs)))
      else if c = 0x2D \<or> isDigit c then
        (case lexNumber (c # cs) of
           None \<Rightarrow> None
         | Some n \<Rightarrow>
             map_option (Cons (TScalar (JNumber (take n (c # cs))))) (tokenize (drop (n - 1) cs)))
      else if take 4 (c # cs) = js ''true'' then
        map_option (Cons (TScalar (JBool True))) (tokenize (drop 3 cs))
      else if take 5 (c # cs) = js ''false'' then
        map_option (Cons (TScalar (JBool False))) (tokenize (drop 4 cs))
      else if take 4 (c # cs) = js ''null'' then
        map_option (Cons (TScalar JNull)) (tokenize (drop 3 cs))
      else None)"

text \<open>
  The grammar of JSON over tokens, as a pushdown automaton: the stack holds the
  containers that are open, the control state says which tokens may come next.
\<close>

datatype frame =
    InArray "json list"
  | InObject "(jsstring \<times> json) list"
  | ForKey jsstring

datatype expect =
    Value | ValueOrClose | Key | KeyOrClose | Colon | CommaOrClose | Finished json

text \<open>A value is complete: it is the result, an element, or a member's value.\<close>

fun complete :: "json \<Rightarrow> frame list \<Rightarrow> (expect \<times> frame list) option" where
  "complete v [] = Some (Finished v, [])"
| "complete v (InArray es # st) = Some (CommaOrClose, InArray (es @ [v]) # st)"
| "complete v (ForKey k # InObject ms # st) = Some (CommaOrClose, InObject (ms @ [(k, v)]) # st)"
| "complete v _ = None"

fun startValue :: "frame list \<Rightarrow> jtoken \<Rightarrow> (expect \<times> frame list) option" where
  "startValue st (TScalar v) = complete v st"
| "startValue st TLBracket = Some (ValueOrClose, InArray [] # st)"
| "startValue st TLBrace = Some (KeyOrClose, InObject [] # st)"
| "startValue st _ = None"

fun startKey :: "frame list \<Rightarrow> jtoken \<Rightarrow> (expect \<times> frame list) option" where
  "startKey st (TScalar (JString k)) = Some (Colon, ForKey k # st)"
| "startKey st _ = None"

fun closeArray :: "frame list \<Rightarrow> (expect \<times> frame list) option" where
  "closeArray (InArray es # st) = complete (JArray es) st"
| "closeArray _ = None"

fun closeObject :: "frame list \<Rightarrow> (expect \<times> frame list) option" where
  "closeObject (InObject ms # st) = complete (JObject ms) st"
| "closeObject _ = None"

fun afterComma :: "frame list \<Rightarrow> (expect \<times> frame list) option" where
  "afterComma (InArray es # st) = Some (Value, InArray es # st)"
| "afterComma (InObject ms # st) = Some (Key, InObject ms # st)"
| "afterComma _ = None"

fun parseStep :: "expect \<times> frame list \<Rightarrow> jtoken \<Rightarrow> (expect \<times> frame list) option" where
  "parseStep (Value, st) t = startValue st t"
| "parseStep (ValueOrClose, st) t = (if t = TRBracket then closeArray st else startValue st t)"
| "parseStep (Key, st) t = startKey st t"
| "parseStep (KeyOrClose, st) t = (if t = TRBrace then closeObject st else startKey st t)"
| "parseStep (Colon, st) t = (if t = TColon then Some (Value, st) else None)"
| "parseStep (CommaOrClose, st) t =
     (if t = TComma then afterComma st
      else if t = TRBracket then closeArray st
      else if t = TRBrace then closeObject st
      else None)"
| "parseStep (Finished v, st) t = None"

fun parseTokens :: "expect \<times> frame list \<Rightarrow> jtoken list \<Rightarrow> json option" where
  "parseTokens (Finished v, st) [] = Some v"
| "parseTokens _ [] = None"
| "parseTokens cfg (t # ts) =
     (case parseStep cfg t of
        None \<Rightarrow> None
      | Some cfg' \<Rightarrow> parseTokens cfg' ts)"

text \<open>\<^verbatim>\<open>JSON.parse(text)\<close>: \<open>None\<close> is the SyntaxError it throws.\<close>

definition JSON_parse :: "jsstring \<Rightarrow> json option" where
  "JSON_parse s =
     (case tokenize s of
        None \<Rightarrow> None
      | Some ts \<Rightarrow> parseTokens (Value, []) ts)"

subsection \<open>Reading the token: \<^verbatim>\<open>parsed.choices?.[0]?.delta?.content\<close>\<close>

text \<open>
  The exceptions that can be thrown inside the inner \<^verbatim>\<open>try\<close>: the SyntaxError of
  \<^verbatim>\<open>JSON.parse\<close> and the TypeError of a property read on \<^verbatim>\<open>null\<close> or of a
  failed conversion to a primitive.
\<close>

datatype js_error = SyntaxError | TypeError

datatype jsval = Undefined | Val json

text \<open>The own property \<open>name\<close> of an object built by \<^verbatim>\<open>JSON.parse\<close>: of several
  members with one key the last was stored.\<close>

definition getMember :: "jsstring \<Rightarrow> (jsstring \<times> json) list \<Rightarrow> jsval" where
  "getMember name ms = (case map_of (rev ms) name of None \<Rightarrow> Undefined | Some v \<Rightarrow> Val v)"

text \<open>
  \<open>getProp v name\<close> is \<^verbatim>\<open>v.name\<close> for a value \<open>v\<close> that is neither \<^verbatim>\<open>null\<close> nor
  \<^verbatim>\<open>undefined\<close>, and a name that no prototype defines (\<^verbatim>\<open>choices\<close>, \<^verbatim>\<open>delta\<close>,
  \<^verbatim>\<open>content\<close>): only an object can have it.  \<open>getIndex0 v\<close> is \<^verbatim>\<open>v[0]\<close>: the
  first element of an array, the first code unit of a string, the member \<^verbatim>\<open>"0"\<close> of
  an object.
\<close>

fun getProp :: "json \<Rightarrow> jsstring \<Rightarrow> jsval" where
  "getProp (JObject ms) name = getMember name ms"
| "getProp _ name = Undefined"

fun getIndex0 :: "json \<Rightarrow> jsval" where
  "getIndex0 (JArray es) = (case es of [] \<Rightarrow> Undefined | e # _ \<Rightarrow> Val e)"
| "getIndex0 (JString s) = (case s of [] \<Rightarrow> Undefined | c # _ \<Rightarrow> Val (JString [c]))"
| "getIndex0 (JObject ms) = getMember (js ''0'') ms"
| "getIndex0 _ = Undefined"

text \<open>An optional link \<^verbatim>\<open>v?.\<close>: \<^verbatim>\<open>undefined\<close> when \<open>v\<close> is \<^verbatim>\<open>null\<close> or \<^verbatim>\<open>undefined\<close>.\<close>

definition optional :: "jsval \<Rightarrow> (json \<Rightarrow> jsval) \<Rightarrow> jsval" where
  "optional v f = (case v of Undefined \<Rightarrow> Undefined | Val JNull \<Rightarrow> Undefined | Val j \<Rightarrow> f j)"

text \<open>The first link \<^verbatim>\<open>parsed.choices\<close> is not optional: it throws on \<^verbatim>\<open>null\<close>.\<close>

definition readToken :: "json \<Rightarrow> js_error + jsval" where
  "readToken parsed =
     (if parsed = JNull then Inl TypeError
      else
        (let choices = getProp parsed (js ''choices'');
             first = optional choices getIndex0;
             delta = optional first (\<lambda>v. getProp v (js ''delta''));
             token = optional delta (\<lambda>v. getProp v (js ''content''))
         in Inr token))"

text \<open>
  The two conversions of a number that need its double value are the platform's:
  whether it is truthy (not \<open>\<plusminus>0\<close>) and its decimal text.  They are a parameter of
  the model.
\<close>

record platform =
  Number_truthy :: "jsstring \<Rightarrow> bool"
  Number_toString :: "jsstring \<Rightarrow> jsstring"

fun truthy :: "platform \<Rightarrow> jsval \<Rightarrow> bool" where
  "truthy P Undefined = False"
| "truthy P (Val JNull) = False"
| "truthy P (Val (JBool b)) = b"
| "truthy P (Val (JNumber n)) = Number_truthy P n"
| "truthy P (Val (JString s)) = (s \<noteq> [])"
| "truthy P (Val (JArray es)) = True"
| "truthy P (Val (JObject ms)) = True"

text \<open>
  \<open>joinComma\<close> is the tail of \<^verbatim>\<open>Array.prototype.join\<close> once every element has been
  converted: the first exception, or the texts separated by commas.
\<close>

fun joinComma :: "(js_error + jsstring) list \<Rightarrow> js_error + jsstring" where
  "joinComma [] = Inr []"
| "joinComma [x] = x"
| "joinComma (x # y # ys) =
     (case x of
        Inl e \<Rightarrow> Inl e
      | Inr s \<Rightarrow> (case joinComma (y # ys) of Inl e \<Rightarrow> Inl e | Inr r \<Rightarrow> Inr (s @ js '','' @ r)))"

text \<open>
  The text that \<^verbatim>\<open>content += token\<close> appends.  An object gives \<^verbatim>\<open>[object Object]\<close>
  unless it has a member \<^verbatim>\<open>toString\<close>, which hides the inherited method and is
  not callable: then the conversion throws.  An array joins its elements, \<^verbatim>\<open>null\<close>
  counting as the empty text.
\<close>

fun toText :: "platform \<Rightarrow> json \<Rightarrow> js_error + jsstring" where
  "toText P JNull = Inr (js ''null'')"
| "toText P (JBool b) = Inr (if b then js ''true'' else js ''false'')"
| "toText P (JNumber n) = Inr (Number_toString P n)"
| "toText P (JString s) = Inr s"
| "toText P (JArray es) =
     joinComma (map (\<lambda>e. if e = JNull then Inr [] else toText P e) es)"
| "toText P (JObject ms) =
     (if js ''toString'' \<in> fst ` set ms then Inl TypeError else Inr (js ''[object Object]''))"

subsection \<open>Messages and the session state\<close>

datatype role = User | Assistant | System

record message =
  id' :: jsstring
  role :: role
  content :: jsstring
  timestamp :: int

text \<open>
  \<^verbatim>\<open>createMessage(role, content = '')\<close>.  The id (built from \<^verbatim>\<open>Date.now()\<close> and
  \<^verbatim>\<open>Math.random()\<close>) and the timestamp (\<^verbatim>\<open>new Date()\<close>) come from the environment:
  they are arguments here.
\<close>

definition createMessage :: "jsstring \<Rightarrow> int \<Rightarrow> role \<Rightarrow> jsstring \<Rightarrow> message" where
  "createMessage i t r c = \<lparr>id' = i, role = r, content = c, timestamp = t\<rparr>"

text \<open>
  What is thrown into the outer \<^verbatim>\<open>catch\<close>: the rejection of \<^verbatim>\<open>fetch\<close> or of
  \<^verbatim>\<open>reader.read()\<close>, \<^verbatim>\<open>new Error(`Erro ${response.status}`)\<close>, and the error
  thrown when the response has no body.
\<close>

datatype failure = NetworkError | HttpError nat | StreamUnavailable

text \<open>
  The suspended call of \<^verbatim>\<open>sendMessage\<close>, if there is one: it waits for \<^verbatim>\<open>fetch\<close>
  or for \<^verbatim>\<open>reader.read()\<close>, and it holds the id of its \<^verbatim>\<open>assistantMsg\<close>.
\<close>

datatype task = NoTask | AwaitFetch jsstring | AwaitRead jsstring

text \<open>
  The refs \<^verbatim>\<open>messages\<close> and \<^verbatim>\<open>isLoading\<close>, the suspended call, and the two effects
  on the outside: the request bodies passed to \<^verbatim>\<open>fetch\<close> (the array \<^verbatim>\<open>messages\<close>
  of each body, before \<^verbatim>\<open>JSON.stringify\<close>) and the errors given to
  \<^verbatim>\<open>console.error\<close>.
\<close>

record session =
  messages :: "message list"
  isLoading :: bool
  task :: task
  requests :: "(role \<times> jsstring) list list"
  console :: "failure list"

text \<open>\<^verbatim>\<open>xs.findIndex(p)\<close> is \<open>-1\<close> when no element satisfies \<open>p\<close>; \<^verbatim>\<open>xs[i]\<close> is
  \<^verbatim>\<open>undefined\<close> outside the array.\<close>

fun findIndex :: "('a \<Rightarrow> bool) \<Rightarrow> 'a list \<Rightarrow> int" where
  "findIndex p [] = - 1"
| "findIndex p (x # xs) =
     (if p x then 0 else (let i = findIndex p xs in if i < 0 then - 1 else i + 1))"

definition at :: "'a list \<Rightarrow> int \<Rightarrow> 'a option" where
  "at xs i = (if 0 \<le> i \<and> i < int (length xs) then Some (xs ! nat i) else None)"

subsection \<open>\<^verbatim>\<open>sendMessage\<close>: from the call to the first \<^verbatim>\<open>await\<close>\<close>

definition SYSTEM_PROMPT :: jsstring where
  "SYSTEM_PROMPT =
     js ''Voc'' @ [0xEA] @ js '' '' @ [0xE9] @ js '' a MedIA, uma assistente m'' @ [0xE9] @
     js ''dica virtual baseada no modelo Gemma. Sempre responda em portugu'' @ [0xEA] @
     js ''s brasileiro. voc'' @ [0xEA] @ js '' lida com m'' @ [0xE9] @
     js ''dicos registrados''"

definition push :: "message \<Rightarrow> session \<Rightarrow> session" where
  "push m s = s\<lparr>messages := messages s @ [m]\<rparr>"

text \<open>The array \<^verbatim>\<open>messages\<close> of the request body, built from \<^verbatim>\<open>messages.value\<close> as
  it is when \<^verbatim>\<open>fetch\<close> is called.\<close>

definition requestBody :: "message list \<Rightarrow> jsstring \<Rightarrow> (role \<times> jsstring) list" where
  "requestBody ms text =
     (System, SYSTEM_PROMPT) #
     map (\<lambda>m. (role m, content m)) (filter (\<lambda>m. content m \<noteq> []) ms) @
     [(User, text)]"

definition fetch :: "(role \<times> jsstring) list \<Rightarrow> session \<Rightarrow> session" where
  "fetch body s = s\<lparr>requests := requests s @ [body]\<rparr>"

text \<open>
  The synchronous part of \<^verbatim>\<open>sendMessage(text)\<close>: the guard, the two pushes, the
  flag, the call of \<^verbatim>\<open>fetch\<close>; then the call is suspended.  \<open>uid\<close>, \<open>ut\<close> and
  \<open>aid\<close>, \<open>at'\<close> are the id and timestamp that \<^verbatim>\<open>createMessage\<close> draws for the user
  message and for the assistant message.
\<close>

definition sendMessage :: "jsstring \<Rightarrow> jsstring \<Rightarrow> int \<Rightarrow> jsstring \<Rightarrow> int \<Rightarrow> session \<Rightarrow> session" where
  "sendMessage text uid ut aid at' s =
     (if trim text = [] \<or> isLoading s then s
      else
        (let s1 = push (createMessage uid ut User text) s;
             assistantMsg = createMessage aid at' Assistant [];
             s2 = push assistantMsg s1;
             s3 = s2\<lparr>isLoading := True\<rparr>;
             s4 = fetch (requestBody (messages s3) text) s3
         in s4\<lparr>task := AwaitFetch (id' assistantMsg)\<rparr>))"

definition clearMessages :: "session \<Rightarrow> session" where
  "clearMessages s = s\<lparr>messages := []\<rparr>"

subsection \<open>\<^verbatim>\<open>sendMessage\<close>: decoding the stream\<close>

definition DATA_PREFIX :: jsstring where
  "DATA_PREFIX = js ''data: ''"

definition DONE :: jsstring where
  "DONE = js ''[DONE]''"

definition FALLBACK :: jsstring where
  "FALLBACK = js ''Desculpe, ocorreu um erro. Tente novamente.''"

text \<open>\<^verbatim>\<open>if (msg) msg.content += token\<close>, for the message found by its id.\<close>

definition appendToken :: "platform \<Rightarrow> jsstring \<Rightarrow> json \<Rightarrow> message list \<Rightarrow> js_error + message list" where
  "appendToken P aid token ms =
     (let idx = findIndex (\<lambda>m. id' m = aid) ms;
          msg = at ms idx
      in case msg of
           None \<Rightarrow> Inr ms
         | Some m \<Rightarrow>
             (case toText P token of
                Inl e \<Rightarrow> Inl e
              | Inr t \<Rightarrow> Inr (ms[nat idx := m\<lparr>content := content m @ t\<rparr>])))"

text \<open>The body of the inner \<^verbatim>\<open>try\<close>, and the inner \<^verbatim>\<open>try\<close> with its empty
  \<^verbatim>\<open>catch\<close>.\<close>

definition tryData :: "platform \<Rightarrow> jsstring \<Rightarrow> jsstring \<Rightarrow> message list \<Rightarrow> js_error + message list" where
  "tryData P aid data ms =
     (case JSON_parse data of
        None \<Rightarrow> Inl SyntaxError
      | Some parsed \<Rightarrow>
          (case readToken parsed of
             Inl e \<Rightarrow> Inl e
           | Inr token \<Rightarrow>
               (case token of
                  Undefined \<Rightarrow> Inr ms
                | Val v \<Rightarrow> if truthy P token then appendToken P aid v ms else Inr ms)))"

definition handleData :: "platform \<Rightarrow> jsstring \<Rightarrow> jsstring \<Rightarrow> message list \<Rightarrow> message list" where
  "handleData P aid data ms = (case tryData P aid data ms of Inl e \<Rightarrow> ms | Inr ms' \<Rightarrow> ms')"

text \<open>The loop \<^verbatim>\<open>for (const line of lines)\<close> with its \<^verbatim>\<open>continue\<close> and its
  \<^verbatim>\<open>break\<close>.\<close>

fun processLines :: "platform \<Rightarrow> jsstring \<Rightarrow> jsstring list \<Rightarrow> message list \<Rightarrow> message list" where
  "processLines P aid [] ms = ms"
| "processLines P aid (line # lines) ms =
     (if \<not> startsWith line DATA_PREFIX then processLines P aid lines ms
      else
        (let data = trim (slice 6 line)
         in if data = DONE then ms
            else processLines P aid lines (handleData P aid data ms)))"

text \<open>One turn of the \<^verbatim>\<open>while\<close> loop on a chunk that \<^verbatim>\<open>decoder.decode\<close> has turned
  into text.\<close>

definition processChunk :: "platform \<Rightarrow> jsstring \<Rightarrow> jsstring \<Rightarrow> session \<Rightarrow> session" where
  "processChunk P aid chunk s =
     s\<lparr>messages := processLines P aid (split 0x0A chunk) (messages s)\<rparr>"

text \<open>The outer \<^verbatim>\<open>catch\<close> and \<^verbatim>\<open>finally\<close>.\<close>

definition onCatch :: "jsstring \<Rightarrow> failure \<Rightarrow> session \<Rightarrow> session" where
  "onCatch aid err s =
     (let idx = findIndex (\<lambda>m. id' m = aid) (messages s);
          msg = at (messages s) idx;
          s' = (case msg of
                  None \<Rightarrow> s
                | Some m \<Rightarrow> s\<lparr>messages := (messages s)[nat idx := m\<lparr>content := FALLBACK\<rparr>]\<rparr>)
      in s'\<lparr>console := console s' @ [err]\<rparr>)"

definition onFinally :: "session \<Rightarrow> session" where
  "onFinally s = s\<lparr>isLoading := False, task := NoTask\<rparr>"

definition fail :: "jsstring \<Rightarrow> failure \<Rightarrow> session \<Rightarrow> session" where
  "fail aid err s = onFinally (onCatch aid err s)"

subsection \<open>The session as a reactive system\<close>

text \<open>
  What can happen to a session: the two operations are called, and the promise a
  suspended \<^verbatim>\<open>sendMessage\<close> awaits is settled.  \<^verbatim>\<open>fetch\<close> rejects, or resolves to a
  response with a status and possibly a body; \<^verbatim>\<open>reader.read()\<close> rejects, resolves
  to a chunk (given here as the text \<^verbatim>\<open>decoder.decode(value, {stream: true})\<close> returns
  for it), or resolves to \<^verbatim>\<open>done\<close>.
\<close>

datatype event =
    SendMessage jsstring jsstring int jsstring int
  | ClearMessages
  | FetchRejected
  | FetchResolved nat bool
  | ReadChunk jsstring
  | ReadDone
  | ReadRejected

text \<open>\<^verbatim>\<open>response.ok\<close>: the status is in the range 200 to 299.\<close>

definition ok :: "nat \<Rightarrow> bool" where
  "ok status \<longleftrightarrow> 200 \<le> status \<and> status \<le> 299"

text \<open>The continuation of \<^verbatim>\<open>sendMessage\<close> after \<^verbatim>\<open>await fetch(...)\<close>.\<close>

definition afterFetch :: "jsstring \<Rightarrow> nat \<Rightarrow> bool \<Rightarrow> session \<Rightarrow> session" where
  "afterFetch aid status body s =
     (if \<not> ok status then fail aid (HttpError status) s
      else if \<not> body then fail aid StreamUnavailable s
      else s\<lparr>task := AwaitRead aid\<rparr>)"

text \<open>An event that settles a promise nobody awaits does not occur: the state stays.\<close>

fun step :: "platform \<Rightarrow> session \<Rightarrow> event \<Rightarrow> session" where
  "step P s (SendMessage text uid ut aid at') = sendMessage text uid ut aid at' s"
| "step P s ClearMessages = clearMessages s"
| "step P s FetchRejected =
     (case task s of AwaitFetch aid \<Rightarrow> fail aid NetworkError s | _ \<Rightarrow> s)"
| "step P s (FetchResolved status body) =
     (case task s of AwaitFetch aid \<Rightarrow> afterFetch aid status body s | _ \<Rightarrow> s)"
| "step P s (ReadChunk chunk) =
     (case task s of AwaitRead aid \<Rightarrow> processChunk P aid chunk s | _ \<Rightarrow> s)"
| "step P s ReadDone =
     (case task s of AwaitRead aid \<Rightarrow> onFinally s | _ \<Rightarrow> s)"
| "step P s ReadRejected =
     (case task s of AwaitRead aid \<Rightarrow> fail aid NetworkError s | _ \<Rightarrow> s)"

definition run :: "platform \<Rightarrow> session \<Rightarrow> event list \<Rightarrow> session" where
  "run P s es = foldl (step P) s es"

text \<open>
  What can happen between the moment a send is accepted and the moment it ends,
  besides the settling of its own promises: the two operations are called, chunks
  are read.
\<close>

fun interim :: "event \<Rightarrow> bool" where
  "interim (SendMessage text uid ut aid at') = True"
| "interim ClearMessages = True"
| "interim (ReadChunk chunk) = True"
| "interim _ = False"

text \<open>\<^verbatim>\<open>useChat()\<close> creates the session: no message, not loading, nothing sent.\<close>

definition useChat :: session where
  "useChat = \<lparr>messages = [], isLoading = False, task = NoTask, requests = [], console = []\<rparr>"

subsection \<open>Example data\<close>

text \<open>
  A platform for the examples (no example converts a number) and the lines of
  the stream \<^verbatim>\<open>data: {"choices":[{"delta":{"content":"Ol"}}]}\<close>,
  the same with the content \<open>a\<close> with an acute accent (the code unit \<open>0xE1\<close>),
  \<^verbatim>\<open>data: [DONE]\<close> and \<^verbatim>\<open>data: not-json\<close>, each without and with its line feed.
  \<open>deltaEvent t\<close> is the value of \<^verbatim>\<open>{"choices":[{"delta":{"content":t}}]}\<close>.
\<close>

definition testPlatform :: platform where
  "testPlatform = \<lparr>Number_truthy = (\<lambda>n. True), Number_toString = (\<lambda>n. n)\<rparr>"

definition EVENT_OL :: jsstring where
  "EVENT_OL = js ''data: {\"choices\":[{\"delta\":{\"content\":\"Ol\"}}]}''"

definition EVENT_A :: jsstring where
  "EVENT_A = js ''data: {\"choices\":[{\"delta\":{\"content\":\"'' @ [0xE1] @ js ''\"}}]}''"

definition EVENT_DONE :: jsstring where
  "EVENT_DONE = js ''data: [DONE]''"

definition EVENT_BAD :: jsstring where
  "EVENT_BAD = js ''data: not-json''"

definition LINE_OL :: jsstring where
  "LINE_OL = EVENT_OL @ [0x0A]"

definition LINE_A :: jsstring where
  "LINE_A = EVENT_A @ [0x0A]"

definition LINE_DONE :: jsstring where
  "LINE_DONE = EVENT_DONE @ [0x0A]"


text \<open>The first session after the send of \<^verbatim>\<open>oi\<close>, when the response has arrived.\<close>

definition OPENED :: session where
  "OPENED = run testPlatform useChat
     [SendMessage (js ''oi'') (js ''u'') 1 (js ''a'') 2, FetchResolved 200 True]"

text \<open>The line \<open>LINE_OL\<close> cut in two inside its JSON text.\<close>

definition FRAGMENT_1 :: jsstring where
  "FRAGMENT_1 = js ''data: {\"choices\":[{\"delta\":{\"con''"

definition FRAGMENT_2 :: jsstring where
  "FRAGMENT_2 = js ''tent\":\"Ol\"}}]}'' @ [0x0A]"

definition deltaEvent :: "jsstring \<Rightarrow> json" where
  "deltaEvent t =
     JObject [(js ''choices'', JArray [JObject [(js ''delta'', JObject [(js ''content'', JString t)])]])]"

section \<open>Properties\<close>

subsection \<open>Basic facts\<close>

lemma trim_Nil: "trim [] = []"
  by (simp add: trim_def)

lemma trim_nonempty: "trim text \<noteq> [] \<Longrightarrow> text \<noteq> []"
  by (auto simp: trim_Nil)

lemma trim_oi: "trim (js '' oi'') = js ''oi''"
  by (simp add: trim_def js_def isWhiteSpace_def)

lemma oi_differs: "js '' oi'' \<noteq> js ''oi''" and oi_nonempty: "js ''oi'' \<noteq> []"
  by (simp_all add: js_def)

lemma run_Nil: "run P s [] = s"
  by (simp add: run_def)

lemma run_Cons: "run P s (e # es) = run P (step P s e) es"
  by (simp add: run_def)

lemma run_append: "run P s (es @ fs) = run P (run P s es) fs"
  by (simp add: run_def)

text \<open>Looking a message up by its id.\<close>

lemma findIndex_fresh:
  "\<forall>x\<in>set pre. \<not> p x \<Longrightarrow> p m \<Longrightarrow> findIndex p (pre @ m # post) = int (length pre)"
  by (induction pre) (auto simp: Let_def)

lemma findIndex_absent: "\<forall>x\<in>set xs. \<not> p x \<Longrightarrow> findIndex p xs = - 1"
  by (induction xs) (auto simp: Let_def)

lemma at_middle: "at (pre @ m # post) (int (length pre)) = Some m"
  by (simp add: at_def)

lemma at_minus_one: "at xs (- 1) = None"
  by (simp add: at_def)

text \<open>
  When the last message is the only one with the id \<open>aid\<close>, the stream changes
  nothing but the content of that message.
\<close>

lemma appendToken_fresh:
  assumes "\<forall>x\<in>set pre. id' x \<noteq> aid" and "id' m = aid"
  shows "appendToken P aid v (pre @ [m]) =
           (case toText P v of
              Inl e \<Rightarrow> Inl e
            | Inr t \<Rightarrow> Inr (pre @ [m\<lparr>content := content m @ t\<rparr>]))"
proof -
  have "findIndex (\<lambda>x. id' x = aid) (pre @ [m]) = int (length pre)"
    using assms by (intro findIndex_fresh) simp_all
  then show ?thesis
    by (simp add: appendToken_def Let_def at_middle split: sum.splits)
qed

lemma tryData_fresh:
  assumes "\<forall>x\<in>set pre. id' x \<noteq> aid" and "id' m = aid"
  shows "(\<exists>e. tryData P aid data (pre @ [m\<lparr>content := c0\<rparr>]) = Inl e) \<or>
         (\<exists>c. tryData P aid data (pre @ [m\<lparr>content := c0\<rparr>]) = Inr (pre @ [m\<lparr>content := c\<rparr>]))"
proof -
  have m: "id' (m\<lparr>content := c0\<rparr>) = aid"
    using assms(2) by simp
  show ?thesis
    unfolding tryData_def appendToken_fresh [OF assms(1) m]
    by (auto split: option.splits sum.splits jsval.splits)
qed

lemma handleData_fresh:
  assumes "\<forall>x\<in>set pre. id' x \<noteq> aid" and "id' m = aid"
  shows "\<exists>c. handleData P aid data (pre @ [m\<lparr>content := c0\<rparr>]) = pre @ [m\<lparr>content := c\<rparr>]"
  using tryData_fresh [OF assms, of P data c0]
  by (auto simp: handleData_def)

lemma processLines_fresh:
  assumes "\<forall>x\<in>set pre. id' x \<noteq> aid" and "id' m = aid"
  shows "\<exists>c. processLines P aid ls (pre @ [m\<lparr>content := c0\<rparr>]) = pre @ [m\<lparr>content := c\<rparr>]"
proof (induction ls arbitrary: c0)
  case Nil
  show ?case by auto
next
  case (Cons line ls)
  obtain c1 where c1:
    "handleData P aid (trim (slice 6 line)) (pre @ [m\<lparr>content := c0\<rparr>]) = pre @ [m\<lparr>content := c1\<rparr>]"
    using handleData_fresh [OF assms] by blast
  show ?case
  proof (cases "startsWith line DATA_PREFIX")
    case False
    with Cons.IH [of c0] show ?thesis by simp
  next
    case True
    show ?thesis
    proof (cases "trim (slice 6 line) = DONE")
      case True
      with \<open>startsWith line DATA_PREFIX\<close> show ?thesis
        by auto
    next
      case False
      with \<open>startsWith line DATA_PREFIX\<close> c1 Cons.IH [of c1] show ?thesis
        by simp
    qed
  qed
qed

lemma onCatch_fresh:
  assumes "\<forall>x\<in>set pre. id' x \<noteq> aid" and "id' m = aid" and "messages s = pre @ [m]"
  shows "onCatch aid err s =
           s\<lparr>messages := pre @ [m\<lparr>content := FALLBACK\<rparr>], console := console s @ [err]\<rparr>"
proof -
  have "findIndex (\<lambda>x. id' x = aid) (pre @ [m]) = int (length pre)"
    using assms by (intro findIndex_fresh) simp_all
  then show ?thesis
    using assms(3) by (simp add: onCatch_def Let_def at_middle)
qed

text \<open>The lines of the examples.\<close>

lemma split_line: "sep \<notin> set l \<Longrightarrow> split sep (l @ sep # rest) = l # split sep rest"
  by (induction l) (auto split: list.splits)

lemma split_last: "sep \<notin> set l \<Longrightarrow> split sep l = [l]"
  by (induction l) (auto split: list.splits)

lemma events_one_line:
  "0x0A \<notin> set EVENT_OL" "0x0A \<notin> set EVENT_A" "0x0A \<notin> set EVENT_DONE" "0x0A \<notin> set EVENT_BAD"
  by (simp_all add: EVENT_OL_def EVENT_A_def EVENT_DONE_def EVENT_BAD_def js_def)

lemma events_prefixed:
  "startsWith EVENT_OL DATA_PREFIX" "startsWith EVENT_A DATA_PREFIX"
  "startsWith EVENT_DONE DATA_PREFIX" "startsWith EVENT_BAD DATA_PREFIX"
  "\<not> startsWith [] DATA_PREFIX"
  by (simp_all add: EVENT_OL_def EVENT_A_def EVENT_DONE_def EVENT_BAD_def DATA_PREFIX_def
      startsWith_def js_def)

lemma payload_OL:
  "trim (slice 6 EVENT_OL) = js ''{\"choices\":[{\"delta\":{\"content\":\"Ol\"}}]}''"
  by (simp add: EVENT_OL_def slice_def trim_def js_def isWhiteSpace_def)

lemma payload_A:
  "trim (slice 6 EVENT_A) = js ''{\"choices\":[{\"delta\":{\"content\":\"'' @ [0xE1] @ js ''\"}}]}''"
  by (simp add: EVENT_A_def slice_def trim_def js_def isWhiteSpace_def)

lemma payload_DONE: "trim (slice 6 EVENT_DONE) = DONE"
  by (simp add: EVENT_DONE_def DONE_def slice_def trim_def js_def isWhiteSpace_def)

lemma payload_BAD: "trim (slice 6 EVENT_BAD) = js ''not-json''"
  by (simp add: EVENT_BAD_def slice_def trim_def js_def isWhiteSpace_def)

lemma parse_OL:
  "JSON_parse (js ''{\"choices\":[{\"delta\":{\"content\":\"Ol\"}}]}'') = Some (deltaEvent (js ''Ol''))"
  by (simp add: JSON_parse_def deltaEvent_def js_def isJSONWhitespace_def isDigit_def)

lemma parse_A:
  "JSON_parse (js ''{\"choices\":[{\"delta\":{\"content\":\"'' @ [0xE1] @ js ''\"}}]}'') = Some (deltaEvent [0xE1])"
  by (simp add: JSON_parse_def deltaEvent_def js_def isJSONWhitespace_def isDigit_def)

lemma parse_BAD: "JSON_parse (js ''not-json'') = None"
  by (simp add: JSON_parse_def js_def isJSONWhitespace_def isDigit_def)

lemma readToken_delta: "readToken (deltaEvent t) = Inr (Val (JString t))"
  by (simp add: readToken_def deltaEvent_def optional_def getMember_def Let_def)

lemma payloads_not_DONE:
  "js ''{\"choices\":[{\"delta\":{\"content\":\"Ol\"}}]}'' \<noteq> DONE"
  "js ''{\"choices\":[{\"delta\":{\"content\":\"'' @ [0xE1] @ js ''\"}}]}'' \<noteq> DONE"
  "js ''not-json'' \<noteq> DONE"
  by (simp_all add: DONE_def js_def)


lemma handleData_token:
  assumes "JSON_parse data = Some parsed" and "readToken parsed = Inr (Val (JString t))"
    and "t \<noteq> []" and "findIndex (\<lambda>m. id' m = aid) ms = int i" and "i < length ms"
  shows "handleData P aid data ms = ms[i := (ms ! i)\<lparr>content := content (ms ! i) @ t\<rparr>]"
  using assms by (simp add: handleData_def tryData_def appendToken_def at_def Let_def)

lemma handleData_token_fresh:
  assumes "\<forall>x\<in>set pre. id' x \<noteq> aid" and "id' m = aid"
    and "JSON_parse data = Some (deltaEvent t)" and "t \<noteq> []"
  shows "handleData P aid data (pre @ [m\<lparr>content := c\<rparr>]) = pre @ [m\<lparr>content := c @ t\<rparr>]"
proof -
  have "findIndex (\<lambda>x. id' x = aid) (pre @ [m\<lparr>content := c\<rparr>]) = int (length pre)"
    using assms(1,2) by (intro findIndex_fresh) simp_all
  from handleData_token [OF assms(3) readToken_delta assms(4) this, of P] show ?thesis
    by simp
qed

lemma line_skipped:
  "\<not> startsWith line DATA_PREFIX \<Longrightarrow> processLines P aid (line # rest) ms = processLines P aid rest ms"
  by simp

lemma line_DONE:
  "startsWith line DATA_PREFIX \<Longrightarrow> trim (slice 6 line) = DONE \<Longrightarrow>
   processLines P aid (line # rest) ms = ms"
  by simp

lemma line_data:
  "startsWith line DATA_PREFIX \<Longrightarrow> trim (slice 6 line) \<noteq> DONE \<Longrightarrow>
   processLines P aid (line # rest) ms =
     processLines P aid rest (handleData P aid (trim (slice 6 line)) ms)"
  by simp

lemma line_OL:
  assumes "\<forall>x\<in>set pre. id' x \<noteq> aid" and "id' m = aid"
  shows "processLines P aid (EVENT_OL # rest) (pre @ [m\<lparr>content := c\<rparr>]) =
         processLines P aid rest (pre @ [m\<lparr>content := c @ js ''Ol''\<rparr>])"
proof -
  have "js ''Ol'' \<noteq> []"
    by (simp add: js_def)
  from handleData_token_fresh [OF assms parse_OL this] show ?thesis
    by (simp only: line_data [OF events_prefixed(1)] payload_OL payloads_not_DONE
        not_False_eq_True)
qed

lemma line_A:
  assumes "\<forall>x\<in>set pre. id' x \<noteq> aid" and "id' m = aid"
  shows "processLines P aid (EVENT_A # rest) (pre @ [m\<lparr>content := c\<rparr>]) =
         processLines P aid rest (pre @ [m\<lparr>content := c @ [0xE1]\<rparr>])"
proof -
  have "[0xE1 :: jschar] \<noteq> []"
    by simp
  from handleData_token_fresh [OF assms parse_A this] show ?thesis
    by (simp only: line_data [OF events_prefixed(2)] payload_A payloads_not_DONE
        not_False_eq_True)
qed

lemma line_EVENT_DONE: "processLines P aid (EVENT_DONE # rest) ms = ms"
  by (rule line_DONE [OF events_prefixed(3) payload_DONE])

lemma line_empty: "processLines P aid ([] # rest) ms = processLines P aid rest ms"
  by (rule line_skipped [OF events_prefixed(5)])

lemma handleData_unparsed: "JSON_parse data = None \<Longrightarrow> handleData P aid data ms = ms"
  by (simp add: handleData_def tryData_def)

lemma step_chunk:
  "task s = AwaitRead aid \<Longrightarrow>
   step P s (ReadChunk chunk) = s\<lparr>messages := processLines P aid (split 0x0A chunk) (messages s)\<rparr>"
  by (simp add: processChunk_def)

text \<open>The state in which an accepted \<^verbatim>\<open>sendMessage\<close> is suspended.\<close>

lemma sendMessage_accepted:
  assumes "\<not> isLoading s" and "trim text \<noteq> []"
  shows "sendMessage text uid ut aid at' s =
     s\<lparr>messages := messages s @ [createMessage uid ut User text, createMessage aid at' Assistant []],
       isLoading := True,
       requests := requests s @
         [(System, SYSTEM_PROMPT) #
          map (\<lambda>m. (role m, content m)) (filter (\<lambda>m. content m \<noteq> []) (messages s)) @
          [(User, text), (User, text)]],
       task := AwaitFetch aid\<rparr>"
  using assms trim_nonempty [OF assms(2)]
  by (simp add: sendMessage_def push_def fetch_def requestBody_def createMessage_def Let_def)

text \<open>
  Messages before the first one with the id \<open>aid\<close> are a frame: the stream
  works on the rest of the sequence as if they were not there.
\<close>

lemma findIndex_range: "- 1 \<le> findIndex p xs \<and> findIndex p xs < int (length xs)"
  by (induction xs) (auto simp: Let_def)

lemma findIndex_append:
  "\<forall>x\<in>set pre. \<not> p x \<Longrightarrow>
   findIndex p (pre @ xs) = (if findIndex p xs < 0 then - 1 else int (length pre) + findIndex p xs)"
  using findIndex_range [of p xs] by (induction pre) (auto simp: Let_def)

lemma at_append: "0 \<le> i \<Longrightarrow> at (pre @ xs) (int (length pre) + i) = at xs i"
  by (auto simp: at_def nth_append nat_add_distrib)

lemma appendToken_frame:
  assumes "\<forall>x\<in>set pre. id' x \<noteq> aid"
  shows "appendToken P aid v (pre @ ms) =
           (case appendToken P aid v ms of Inl e \<Rightarrow> Inl e | Inr ms' \<Rightarrow> Inr (pre @ ms'))"
proof (cases "findIndex (\<lambda>m. id' m = aid) ms < 0")
  case True
  then have "findIndex (\<lambda>m. id' m = aid) ms = - 1"
    using findIndex_range [of "\<lambda>m. id' m = aid" ms] by simp
  then show ?thesis
    using assms by (simp add: appendToken_def findIndex_append at_minus_one)
next
  case False
  then obtain i where i: "findIndex (\<lambda>m. id' m = aid) ms = int i"
    by (metis nat_0_le not_le_imp_less order_less_imp_le int_nat_eq linorder_not_less)
  have "i < length ms"
    using findIndex_range [of "\<lambda>m. id' m = aid" ms] i by simp
  then show ?thesis
    using assms i at_append [of "int i" pre ms]
    by (simp add: appendToken_def findIndex_append at_def list_update_append nat_add_distrib
        split: sum.splits)
qed

lemma handleData_frame:
  assumes "\<forall>x\<in>set pre. id' x \<noteq> aid"
  shows "handleData P aid data (pre @ ms) = pre @ handleData P aid data ms"
  by (simp add: handleData_def tryData_def appendToken_frame [OF assms]
      split: option.splits sum.splits jsval.splits)

lemma processLines_frame:
  assumes "\<forall>x\<in>set pre. id' x \<noteq> aid"
  shows "processLines P aid ls (pre @ ms) = pre @ processLines P aid ls ms"
  by (induction ls arbitrary: ms) (simp_all add: handleData_frame [OF assms] Let_def)


text \<open>The messages of a session whose send reads its stream.\<close>

lemma run_chunks_frame:
  assumes "\<forall>x\<in>set pre. id' x \<noteq> aid" and "task s = AwaitRead aid"
  shows "run P (s\<lparr>messages := pre @ ms\<rparr>) (map ReadChunk chunks) =
           s\<lparr>messages := pre @ foldl (\<lambda>ms chunk. processLines P aid (split 0x0A chunk) ms) ms chunks\<rparr>"
proof (induction chunks arbitrary: ms)
  case Nil
  show ?case by (simp add: run_Nil)
next
  case (Cons chunk chunks)
  have "step P (s\<lparr>messages := pre @ ms\<rparr>) (ReadChunk chunk) =
          s\<lparr>messages := pre @ processLines P aid (split 0x0A chunk) ms\<rparr>"
    using assms(2) by (simp add: step_chunk processLines_frame [OF assms(1)] del: step.simps)
  then show ?case
    using Cons.IH by (simp only: list.map run_Cons foldl_Cons)
qed

lemma open_stream:
  assumes "\<not> isLoading s" and "trim text \<noteq> []" and "ok status"
  shows "run P s (SendMessage text uid ut aid at' # FetchResolved status True # es) =
         run P ((sendMessage text uid ut aid at' s)\<lparr>task := AwaitRead aid\<rparr>) es"
  using assms(3) by (simp add: run_Cons sendMessage_accepted [OF assms(1,2)] afterFetch_def)

lemma streamed:
  assumes "\<not> isLoading s" and "trim text \<noteq> []" and "ok status"
    and "\<forall>m\<in>set (messages s). id' m \<noteq> aid" and "uid \<noteq> aid"
  shows "run P s (SendMessage text uid ut aid at' # FetchResolved status True # map ReadChunk chunks) =
         (sendMessage text uid ut aid at' s)
           \<lparr>task := AwaitRead aid,
            messages := messages s @ createMessage uid ut User text #
              foldl (\<lambda>ms chunk. processLines P aid (split 0x0A chunk) ms)
                [createMessage aid at' Assistant []] chunks\<rparr>"
proof -
  define pre where "pre = messages s @ [createMessage uid ut User text]"
  define s2 where "s2 = (sendMessage text uid ut aid at' s)\<lparr>task := AwaitRead aid\<rparr>"
  have pre: "\<forall>x\<in>set pre. id' x \<noteq> aid"
    using assms(4,5) by (simp add: pre_def createMessage_def)
  have t: "task s2 = AwaitRead aid"
    by (simp add: s2_def)
  have m: "s2 = s2\<lparr>messages := pre @ [createMessage aid at' Assistant []]\<rparr>"
    by (simp add: s2_def pre_def sendMessage_accepted [OF assms(1,2)])
  have "run P s2 (map ReadChunk chunks) =
          s2\<lparr>messages := pre @ foldl (\<lambda>ms chunk. processLines P aid (split 0x0A chunk) ms)
                [createMessage aid at' Assistant []] chunks\<rparr>"
    using run_chunks_frame [OF pre t, of P "[createMessage aid at' Assistant []]" chunks] m
    by simp
  then show ?thesis
    by (simp add: open_stream [OF assms(1,2,3)] s2_def pre_def)
qed

text \<open>The example lines, processed for the message they belong to.\<close>

lemma own_OL:
  "processLines P aid (EVENT_OL # rest) [createMessage aid t r c] =
   processLines P aid rest [createMessage aid t r (c @ js ''Ol'')]"
  using line_OL [of "[]" aid "createMessage aid t r c" P rest c]
  by (simp add: createMessage_def del: processLines.simps)

lemma own_A:
  "processLines P aid (EVENT_A # rest) [createMessage aid t r c] =
   processLines P aid rest [createMessage aid t r (c @ [0xE1])]"
  using line_A [of "[]" aid "createMessage aid t r c" P rest c]
  by (simp add: createMessage_def del: processLines.simps)

lemma split_lines:
  "split 0x0A (EVENT_OL @ 0x0A # rest) = EVENT_OL # split 0x0A rest"
  "split 0x0A (EVENT_A @ 0x0A # rest) = EVENT_A # split 0x0A rest"
  "split 0x0A (EVENT_DONE @ 0x0A # rest) = EVENT_DONE # split 0x0A rest"
  "split 0x0A (EVENT_BAD @ 0x0A # rest) = EVENT_BAD # split 0x0A rest"
  by (simp_all only: split_line [OF events_one_line(1)] split_line [OF events_one_line(2)]
      split_line [OF events_one_line(3)] split_line [OF events_one_line(4)])

lemmas example_simps =
  LINE_OL_def LINE_A_def LINE_DONE_def append_assoc append_Cons append_Nil split_lines
  split.simps(1) own_OL own_A line_EVENT_DONE line_empty processLines.simps(1) foldl_Cons foldl_Nil


lemma finished:
  assumes "\<not> isLoading s" and "trim text \<noteq> []" and "ok status"
    and "\<forall>m\<in>set (messages s). id' m \<noteq> aid" and "uid \<noteq> aid"
  shows "messages (run P s (SendMessage text uid ut aid at' # FetchResolved status True #
            map ReadChunk chunks @ [ReadDone])) =
         messages s @ createMessage uid ut User text #
           foldl (\<lambda>ms chunk. processLines P aid (split 0x0A chunk) ms)
             [createMessage aid at' Assistant []] chunks"
proof -
  have "run P s ((SendMessage text uid ut aid at' # FetchResolved status True #
            map ReadChunk chunks) @ [ReadDone]) =
        step P (run P s (SendMessage text uid ut aid at' # FetchResolved status True #
            map ReadChunk chunks)) ReadDone"
    by (simp only: run_append run_Cons run_Nil)
  then show ?thesis
    by (simp add: streamed [OF assms] onFinally_def)
qed

lemma useChat_idle: "\<not> isLoading useChat" "messages useChat = []"
  by (simp_all add: useChat_def)

lemma oi_nonblank: "trim (js ''oi'') \<noteq> []"
  by (simp add: trim_def js_def isWhiteSpace_def)

lemma ok_200: "ok 200" and not_ok_500: "\<not> ok 500"
  by (simp_all add: ok_def)

lemma useChat_fresh: "\<forall>m\<in>set (messages useChat). id' m \<noteq> js ''a''"
  by (simp add: useChat_def)

lemma u_not_a: "js ''u'' \<noteq> js ''a''"
  by (simp add: js_def)

lemma OPENED:
  "task OPENED = AwaitRead (js ''a'')"
  "messages OPENED = [createMessage (js ''u'') 1 User (js ''oi''), createMessage (js ''a'') 2 Assistant []]"
  "isLoading OPENED"
  using streamed [OF useChat_idle(1) oi_nonblank ok_200 useChat_fresh u_not_a, of testPlatform 1 2 "[]"]
  by (simp_all add: OPENED_def useChat_idle(2) sendMessage_accepted [OF useChat_idle(1) oi_nonblank])

text \<open>The session is loading exactly while a call of \<^verbatim>\<open>sendMessage\<close> is suspended.\<close>

lemma idle_iff_no_task:
  "(isLoading s \<longleftrightarrow> task s \<noteq> NoTask) \<Longrightarrow>
   (isLoading (step P s e) \<longleftrightarrow> task (step P s e) \<noteq> NoTask)"
  by (cases e)
    (auto simp: sendMessage_def push_def fetch_def Let_def clearMessages_def fail_def onFinally_def
      onCatch_def afterFetch_def processChunk_def split: task.splits option.splits)

subsection \<open>The request body\<close>

text \<open>
  C1.  The claim: the body is the system preamble, then the prior conversation
  (messages with non-empty content, as role and content), then the new user text
  exactly once, last.  The code builds the body after it has pushed the user message:
  the filter keeps that message, and the text is appended once more.  At the first
  send of a session, with the text \<^verbatim>\<open>oi\<close>, the body the claim describes is
  \<open>requestBody (messages useChat) (js ''oi'')\<close>, of two elements; the body sent has
  three, the last two both the user text.
\<close>

theorem sendMessage_body_has_text_twice:
  "requests (sendMessage (js ''oi'') (js ''u'') 1 (js ''a'') 2 useChat) =
     [[(System, SYSTEM_PROMPT), (User, js ''oi''), (User, js ''oi'')]]
   \<and> requestBody (messages useChat) (js ''oi'') = [(System, SYSTEM_PROMPT), (User, js ''oi'')]"
proof -
  have idle: "\<not> isLoading useChat"
    by (simp add: useChat_def)
  have nonblank: "trim (js ''oi'') \<noteq> []"
    by (simp add: trim_def js_def isWhiteSpace_def)
  show ?thesis
    by (simp add: sendMessage_accepted [OF idle nonblank]) (simp add: useChat_def requestBody_def)
qed

subsection \<open>Accepting and rejecting a send\<close>

text \<open>
  C4, as amended.  For an idle session and a text whose trim is not empty,
  \<^verbatim>\<open>sendMessage\<close> has appended exactly two messages when it suspends on \<^verbatim>\<open>fetch\<close>:
  a user message whose content is the text as it was passed (\<^verbatim>\<open>sendMessage\<close> trims
  only to test for emptiness; \<^verbatim>\<open>ChatInput\<close> trims before it emits), then an
  assistant message with empty content; the loading flag is true, and one request
  has been issued.
\<close>

theorem sendMessage_appends_two:
  assumes "\<not> isLoading s" and "trim text \<noteq> []"
  shows "messages (sendMessage text uid ut aid at' s) =
           messages s @ [createMessage uid ut User text, createMessage aid at' Assistant []]
       \<and> isLoading (sendMessage text uid ut aid at' s)
       \<and> task (sendMessage text uid ut aid at' s) = AwaitFetch aid
       \<and> length (requests (sendMessage text uid ut aid at' s)) = Suc (length (requests s))"
  by (simp add: sendMessage_accepted [OF assms])

theorem sendMessage_appends_two_witness:
  "\<not> isLoading useChat \<and> trim (js '' oi'') \<noteq> []
   \<and> messages (sendMessage (js '' oi'') (js ''u'') 1 (js ''a'') 2 useChat) =
       [createMessage (js ''u'') 1 User (js '' oi''), createMessage (js ''a'') 2 Assistant []]
   \<and> isLoading (sendMessage (js '' oi'') (js ''u'') 1 (js ''a'') 2 useChat)"
proof -
  have idle: "\<not> isLoading useChat"
    by (simp add: useChat_def)
  have nonblank: "trim (js '' oi'') \<noteq> []"
    by (simp add: trim_oi oi_nonempty)
  have "messages useChat = []"
    by (simp add: useChat_def)
  with sendMessage_appends_two [OF idle nonblank, of "js ''u''" 1 "js ''a''" 2] idle nonblank
  show ?thesis by simp
qed

text \<open>
  C4 as stated fails: the text \<^verbatim>\<open>" oi"\<close> has a non-empty trim, the session is idle,
  and the user message holds \<^verbatim>\<open>" oi"\<close>, not the trimmed \<^verbatim>\<open>"oi"\<close>.
\<close>

theorem sendMessage_keeps_untrimmed_text:
  "\<not> isLoading useChat \<and> trim (js '' oi'') \<noteq> []
   \<and> content (hd (messages (sendMessage (js '' oi'') (js ''u'') 1 (js ''a'') 2 useChat))) = js '' oi''
   \<and> content (hd (messages (sendMessage (js '' oi'') (js ''u'') 1 (js ''a'') 2 useChat))) \<noteq> trim (js '' oi'')"
proof -
  have idle: "\<not> isLoading useChat"
    by (simp add: useChat_def)
  have nonblank: "trim (js '' oi'') \<noteq> []"
    by (simp add: trim_oi oi_nonempty)
  have "messages useChat = []"
    by (simp add: useChat_def)
  then show ?thesis
    using idle nonblank
    by (simp add: sendMessage_accepted [OF idle nonblank] createMessage_def trim_oi oi_differs)
qed

text \<open>
  C5.  A text that trims to the empty string, or a call while the session is
  loading, changes nothing: the state is the same, so the message sequence has the
  same length, no request is issued, and the loading flag is as it was.
\<close>

theorem sendMessage_rejected_noop:
  assumes "trim text = [] \<or> isLoading s"
  shows "sendMessage text uid ut aid at' s = s
       \<and> length (messages (sendMessage text uid ut aid at' s)) = length (messages s)
       \<and> requests (sendMessage text uid ut aid at' s) = requests s
       \<and> isLoading (sendMessage text uid ut aid at' s) = isLoading s"
  using assms by (simp add: sendMessage_def)

theorem sendMessage_rejected_noop_witness:
  "(trim (js '' '' @ [0x0A, 0x09]) = [] \<or> isLoading useChat)
   \<and> sendMessage (js '' '' @ [0x0A, 0x09]) (js ''u'') 1 (js ''a'') 2 useChat = useChat
   \<and> (trim (js ''oi'') = [] \<or> isLoading (useChat\<lparr>isLoading := True\<rparr>))
   \<and> sendMessage (js ''oi'') (js ''u'') 1 (js ''a'') 2 (useChat\<lparr>isLoading := True\<rparr>) =
       useChat\<lparr>isLoading := True\<rparr>"
proof -
  have blank: "trim (js '' '' @ [0x0A, 0x09]) = []"
    by (simp add: trim_def js_def isWhiteSpace_def)
  have busy: "isLoading (useChat\<lparr>isLoading := True\<rparr>)"
    by simp
  show ?thesis
    using blank busy
      sendMessage_rejected_noop [of "js '' '' @ [0x0A, 0x09]" useChat "js ''u''" 1 "js ''a''" 2]
      sendMessage_rejected_noop [of "js ''oi''" "useChat\<lparr>isLoading := True\<rparr>" "js ''u''" 1 "js ''a''" 2]
    by simp
qed

subsection \<open>Failure of a send\<close>

lemma fail_fresh:
  assumes "\<forall>x\<in>set pre. id' x \<noteq> aid" and "id' m = aid" and "messages s = pre @ [m]"
  shows "messages (fail aid err s) = pre @ [m\<lparr>content := FALLBACK\<rparr>] \<and> \<not> isLoading (fail aid err s)"
  by (simp add: fail_def onFinally_def onCatch_fresh [OF assms])

lemma interim_step:
  assumes "isLoading s" and "interim e"
  shows "task (step P s e) = task s \<and> isLoading (step P s e)"
  using assms
  by (cases e) (simp_all add: sendMessage_def clearMessages_def processChunk_def split: task.splits)

lemma interim_run:
  assumes "\<forall>e\<in>set es. interim e"
  shows "isLoading s \<Longrightarrow> task (run P s es) = task s \<and> isLoading (run P s es)"
  using assms
proof (induction es arbitrary: s)
  case Nil
  then show ?case by (simp add: run_Nil)
next
  case (Cons e es)
  from Cons.prems have e: "interim e" and es: "\<forall>e\<in>set es. interim e"
    by simp_all
  from interim_step [OF Cons.prems(1) e, of P] Cons.IH [OF _ es, of "step P s e"]
  show ?case
    by (simp add: run_Cons)
qed

lemma waiting_fetch_run:
  assumes "\<forall>e\<in>set es. interim e \<and> e \<noteq> ClearMessages"
    and "isLoading s" and "task s = AwaitFetch aid"
  shows "run P s es = s"
  using assms(1)
proof (induction es)
  case Nil
  show ?case by (simp add: run_Nil)
next
  case (Cons e es)
  then have "step P s e = s"
    using assms(2,3) by (cases e) (simp_all add: sendMessage_def)
  with Cons show ?case
    by (simp add: run_Cons)
qed

lemma reading_run_fresh:
  assumes "\<forall>x\<in>set pre. id' x \<noteq> aid" and "id' m = aid"
    and "task s = AwaitRead aid" and "isLoading s"
    and "\<forall>e\<in>set es. interim e \<and> e \<noteq> ClearMessages"
  shows "\<exists>c. run P (s\<lparr>messages := pre @ [m\<lparr>content := c0\<rparr>]\<rparr>) es =
              s\<lparr>messages := pre @ [m\<lparr>content := c\<rparr>]\<rparr>"
  using assms(5)
proof (induction es arbitrary: c0)
  case Nil
  show ?case
    unfolding run_Nil by (rule exI) (rule refl)
next
  case (Cons e es)
  from Cons.prems have e: "interim e" "e \<noteq> ClearMessages"
    and es: "\<forall>e\<in>set es. interim e \<and> e \<noteq> ClearMessages"
    by simp_all
  have "\<exists>c1. step P (s\<lparr>messages := pre @ [m\<lparr>content := c0\<rparr>]\<rparr>) e =
              s\<lparr>messages := pre @ [m\<lparr>content := c1\<rparr>]\<rparr>"
  proof (cases e)
    case (SendMessage t0 uid ut aid' at')
    with assms(4) show ?thesis
      by (auto simp: sendMessage_def)
  next
    case (ReadChunk chunk)
    obtain c1 where
      "processLines P aid (split 0x0A chunk) (pre @ [m\<lparr>content := c0\<rparr>]) = pre @ [m\<lparr>content := c1\<rparr>]"
      using processLines_fresh [OF assms(1,2)] by blast
    with ReadChunk assms(3) show ?thesis
      by (auto simp: processChunk_def)
  qed (use e in simp_all)
  then obtain c1 where "step P (s\<lparr>messages := pre @ [m\<lparr>content := c0\<rparr>]\<rparr>) e =
              s\<lparr>messages := pre @ [m\<lparr>content := c1\<rparr>]\<rparr>"
    by blast
  then show ?case
    unfolding run_Cons using Cons.IH [OF es, of c1] by simp
qed


lemma fail_idle: "\<not> isLoading (fail aid err s)"
  by (simp add: fail_def onFinally_def)

lemma run_snoc: "run P s (es @ [e]) = step P (run P s es) e"
  by (simp add: run_append run_Cons run_Nil)

text \<open>
  C3, as amended.  A send is accepted in an idle session.  Calls of \<^verbatim>\<open>sendMessage\<close>
  and chunks may come between its events.  If \<^verbatim>\<open>clearMessages\<close> is not called
  meanwhile and the id of the assistant message is not the id of another message,
  then a rejected \<^verbatim>\<open>fetch\<close>, a status outside 200 to 299, a missing body, and a
  rejected read each leave the content of the assistant message exactly the
  fallback text, whatever had been streamed into it, with the other messages as
  they were.  Whether or not \<^verbatim>\<open>clearMessages\<close> is called meanwhile, the session is
  not loading after the failure, nor after a stream that ends normally.
\<close>

theorem failed_send_shows_fallback:
  assumes idle: "\<not> isLoading s" and nonblank: "trim text \<noteq> []"
  shows "let sent = (\<lambda>tail. run P s (SendMessage text uid ut aid at' # tail));
             failed = (\<lambda>s'. messages s' = messages s @
                          [createMessage uid ut User text, createMessage aid at' Assistant FALLBACK]
                        \<and> \<not> isLoading s')
         in ((\<forall>m\<in>set (messages s). id' m \<noteq> aid) \<and> uid \<noteq> aid \<and>
             (\<forall>e\<in>set before. interim e \<and> e \<noteq> ClearMessages) \<and>
             (\<forall>e\<in>set mid. interim e \<and> e \<noteq> ClearMessages) \<longrightarrow>
               failed (sent (before @ [FetchRejected]))
             \<and> (\<not> ok status \<longrightarrow> failed (sent (before @ [FetchResolved status body])))
             \<and> (ok status \<longrightarrow> failed (sent (before @ [FetchResolved status False])))
             \<and> (ok status \<longrightarrow>
                  failed (sent (before @ FetchResolved status True # mid @ [ReadRejected]))))
          \<and> ((\<forall>e\<in>set before. interim e) \<and> (\<forall>e\<in>set mid. interim e) \<longrightarrow>
               \<not> isLoading (sent (before @ [FetchRejected]))
             \<and> \<not> isLoading (sent (before @ [FetchResolved status False]))
             \<and> (\<not> ok status \<longrightarrow> \<not> isLoading (sent (before @ [FetchResolved status body])))
             \<and> (ok status \<longrightarrow>
                  \<not> isLoading (sent (before @ FetchResolved status True # mid @ [ReadRejected]))
                \<and> \<not> isLoading (sent (before @ FetchResolved status True # mid @ [ReadDone]))))"
proof -
  define pre where "pre = messages s @ [createMessage uid ut User text]"
  define m where "m = createMessage aid at' Assistant []"
  define s1 where "s1 = sendMessage text uid ut aid at' s"
  define expected where "expected = messages s @
      [createMessage uid ut User text, createMessage aid at' Assistant FALLBACK]"
  have m: "id' m = aid"
    by (simp add: m_def createMessage_def)
  have s1: "messages s1 = pre @ [m\<lparr>content := []\<rparr>]" "task s1 = AwaitFetch aid" "isLoading s1"
    by (simp_all add: s1_def pre_def m_def sendMessage_accepted [OF idle nonblank] createMessage_def)
  have fb: "pre @ [m\<lparr>content := FALLBACK\<rparr>] = expected"
    by (simp add: pre_def m_def createMessage_def expected_def)
  have sent: "run P s (SendMessage text uid ut aid at' # before @ tail) = run P (run P s1 before) tail"
    for tail
    by (simp add: run_Cons run_append s1_def)
  have sent_mid: "run P (run P s1 before) (FetchResolved status True # mid @ [e]) =
      step P (run P (afterFetch aid status True (run P s1 before)) mid) e"
    if "task (run P s1 before) = AwaitFetch aid" for e
    using that run_snoc [of P "step P (run P s1 before) (FetchResolved status True)" mid e]
    by (simp add: run_Cons)
  have part1: "(messages (run P (run P s1 before) [FetchRejected]) = expected
        \<and> \<not> isLoading (run P (run P s1 before) [FetchRejected]))
      \<and> (\<not> ok status \<longrightarrow> messages (run P (run P s1 before) [FetchResolved status body]) = expected
        \<and> \<not> isLoading (run P (run P s1 before) [FetchResolved status body]))
      \<and> (ok status \<longrightarrow> messages (run P (run P s1 before) [FetchResolved status False]) = expected
        \<and> \<not> isLoading (run P (run P s1 before) [FetchResolved status False]))
      \<and> (ok status \<longrightarrow>
           messages (run P (run P s1 before) (FetchResolved status True # mid @ [ReadRejected])) = expected
         \<and> \<not> isLoading (run P (run P s1 before) (FetchResolved status True # mid @ [ReadRejected])))"
    if fresh: "\<forall>m\<in>set (messages s). id' m \<noteq> aid" and distinct: "uid \<noteq> aid"
      and before: "\<forall>e\<in>set before. interim e \<and> e \<noteq> ClearMessages"
      and mid: "\<forall>e\<in>set mid. interim e \<and> e \<noteq> ClearMessages"
  proof -
    have pre: "\<forall>x\<in>set pre. id' x \<noteq> aid"
      using fresh distinct by (simp add: pre_def createMessage_def)
    have b: "run P s1 before = s1"
      by (rule waiting_fetch_run [OF before s1(3,2)])
    have failing: "messages (fail aid err s') = expected \<and> \<not> isLoading (fail aid err s')"
      if "messages s' = pre @ [m\<lparr>content := c\<rparr>]" for err s' c
    proof -
      have "id' (m\<lparr>content := c\<rparr>) = aid"
        using m by simp
      from fail_fresh [OF pre this that, of err] show ?thesis
        by (simp add: fb)
    qed
    define s2 where "s2 = s1\<lparr>task := AwaitRead aid\<rparr>"
    have s2: "task s2 = AwaitRead aid" "isLoading s2" "s2 = s2\<lparr>messages := pre @ [m\<lparr>content := []\<rparr>]\<rparr>"
      using s1 by (simp_all add: s2_def)
    obtain c where c: "run P s2 mid = s2\<lparr>messages := pre @ [m\<lparr>content := c\<rparr>]\<rparr>"
      using reading_run_fresh [OF pre m s2(1,2) mid, of P "[]"] s2(3) by auto
    have r4: "run P s1 (FetchResolved status True # mid @ [ReadRejected]) =
                fail aid NetworkError (s2\<lparr>messages := pre @ [m\<lparr>content := c\<rparr>]\<rparr>)" if "ok status"
      using sent_mid [of ReadRejected] that s1(2) s2(1)
      by (simp add: b afterFetch_def c flip: s2_def)
    have early: "(messages (run P (run P s1 before) [FetchRejected]) = expected
        \<and> \<not> isLoading (run P (run P s1 before) [FetchRejected]))
      \<and> (\<not> ok status \<longrightarrow> messages (run P (run P s1 before) [FetchResolved status body]) = expected
        \<and> \<not> isLoading (run P (run P s1 before) [FetchResolved status body]))
      \<and> (ok status \<longrightarrow> messages (run P (run P s1 before) [FetchResolved status False]) = expected
        \<and> \<not> isLoading (run P (run P s1 before) [FetchResolved status False]))"
      using failing [OF s1(1), of NetworkError] failing [OF s1(1), of "HttpError status"]
        failing [OF s1(1), of StreamUnavailable] s1(2)
      by (simp add: b run_Cons run_Nil afterFetch_def)
    have late: "ok status \<longrightarrow>
           messages (run P (run P s1 before) (FetchResolved status True # mid @ [ReadRejected])) = expected
         \<and> \<not> isLoading (run P (run P s1 before) (FetchResolved status True # mid @ [ReadRejected]))"
      using failing [of "s2\<lparr>messages := pre @ [m\<lparr>content := c\<rparr>]\<rparr>" c NetworkError]
      by (simp add: b r4)
    show ?thesis
      using early late by blast
  qed
  have part2: "\<not> isLoading (run P (run P s1 before) [FetchRejected])
      \<and> \<not> isLoading (run P (run P s1 before) [FetchResolved status False])
      \<and> (\<not> ok status \<longrightarrow> \<not> isLoading (run P (run P s1 before) [FetchResolved status body]))
      \<and> (ok status \<longrightarrow>
           \<not> isLoading (run P (run P s1 before) (FetchResolved status True # mid @ [ReadRejected]))
         \<and> \<not> isLoading (run P (run P s1 before) (FetchResolved status True # mid @ [ReadDone])))"
    if before: "\<forall>e\<in>set before. interim e" and mid: "\<forall>e\<in>set mid. interim e"
  proof -
    define sb where "sb = run P s1 before"
    have sb: "task sb = AwaitFetch aid" "isLoading sb"
      using interim_run [OF before s1(3), of P] s1(2) by (simp_all add: sb_def)
    define s2 where "s2 = sb\<lparr>task := AwaitRead aid\<rparr>"
    have "isLoading s2"
      using sb by (simp add: s2_def)
    from interim_run [OF mid this, of P]
    have sm: "task (run P s2 mid) = AwaitRead aid" "isLoading (run P s2 mid)"
      by (simp_all add: s2_def)
    have streamed: "run P sb (FetchResolved status True # mid @ [e]) = step P (run P s2 mid) e"
      if "ok status" for e
      using sent_mid [of e] sb(1) that by (simp add: sb_def s2_def afterFetch_def)
    have early: "\<not> isLoading (run P sb [FetchRejected])
      \<and> \<not> isLoading (run P sb [FetchResolved status False])
      \<and> (\<not> ok status \<longrightarrow> \<not> isLoading (run P sb [FetchResolved status body]))"
      using sb by (simp add: run_Cons run_Nil afterFetch_def fail_idle)
    have late: "ok status \<longrightarrow>
           \<not> isLoading (run P sb (FetchResolved status True # mid @ [ReadRejected]))
         \<and> \<not> isLoading (run P sb (FetchResolved status True # mid @ [ReadDone]))"
      using sm by (simp add: streamed fail_idle onFinally_def)
    show ?thesis
      using early late unfolding sb_def by blast
  qed
  show ?thesis
    unfolding Let_def sent
    using part1 part2 by (simp only: append_Cons append_Nil sent flip: expected_def) blast
qed


theorem failed_send_shows_fallback_witness:
  "messages (run testPlatform useChat (SendMessage (js ''oi'') (js ''u'') 1 (js ''a'') 2 #
      FetchResolved 200 True # map ReadChunk [LINE_OL])) =
     [createMessage (js ''u'') 1 User (js ''oi''), createMessage (js ''a'') 2 Assistant (js ''Ol'')]
   \<and> messages (run testPlatform useChat
      [SendMessage (js ''oi'') (js ''u'') 1 (js ''a'') 2, SendMessage (js ''oi'') (js ''v'') 3 (js ''b'') 4,
       FetchResolved 200 True, ReadChunk LINE_OL, SendMessage (js ''oi'') (js ''v'') 3 (js ''b'') 4,
       ReadRejected]) =
     [createMessage (js ''u'') 1 User (js ''oi''), createMessage (js ''a'') 2 Assistant FALLBACK]
   \<and> \<not> isLoading (run testPlatform useChat
      [SendMessage (js ''oi'') (js ''u'') 1 (js ''a'') 2, SendMessage (js ''oi'') (js ''v'') 3 (js ''b'') 4,
       FetchResolved 200 True, ReadChunk LINE_OL, SendMessage (js ''oi'') (js ''v'') 3 (js ''b'') 4,
       ReadRejected])
   \<and> messages (run testPlatform useChat
      [SendMessage (js ''oi'') (js ''u'') 1 (js ''a'') 2, FetchResolved 500 True]) =
     [createMessage (js ''u'') 1 User (js ''oi''), createMessage (js ''a'') 2 Assistant FALLBACK]
   \<and> \<not> isLoading (run testPlatform useChat
      [SendMessage (js ''oi'') (js ''u'') 1 (js ''a'') 2, ClearMessages, FetchRejected])"
proof -
  have partial: "messages (run testPlatform useChat (SendMessage (js ''oi'') (js ''u'') 1 (js ''a'') 2 #
      FetchResolved 200 True # map ReadChunk [LINE_OL])) =
     [createMessage (js ''u'') 1 User (js ''oi''), createMessage (js ''a'') 2 Assistant (js ''Ol'')]"
    unfolding streamed [OF useChat_idle(1) oi_nonblank ok_200 useChat_fresh u_not_a]
    by (simp add: useChat_idle(2)) (simp only: example_simps)
  note inst = failed_send_shows_fallback [OF useChat_idle(1) oi_nonblank,
      where P = testPlatform and uid = "js ''u''" and ut = 1 and aid = "js ''a''" and at' = 2,
      unfolded Let_def]
  note broken = inst [where before = "[SendMessage (js ''oi'') (js ''v'') 3 (js ''b'') 4]"
      and mid = "[ReadChunk LINE_OL, SendMessage (js ''oi'') (js ''v'') 3 (js ''b'') 4]"
      and status = 200, THEN conjunct1]
  note refused = inst [where before = "[]" and mid = "[]" and status = 500 and body = True,
      THEN conjunct1]
  note cleared = inst [where before = "[ClearMessages]" and mid = "[]", THEN conjunct2]
  show ?thesis
    using partial broken refused cleared ok_200 not_ok_500 useChat_fresh u_not_a
    by (simp add: useChat_idle(2))
qed

text \<open>
  C3 as stated fails: when \<^verbatim>\<open>clearMessages\<close> is called while the send is in flight,
  the assistant message is no longer in the sequence, \<^verbatim>\<open>findIndex\<close> gives \<open>-1\<close> and
  the guarded write does nothing.  The send fails (a rejected \<^verbatim>\<open>fetch\<close>, a status
  500, a rejected read after a chunk) and no message holds the fallback text: the
  sequence is empty.
\<close>

theorem cleared_send_writes_no_fallback:
  "\<not> isLoading useChat \<and> trim (js ''oi'') \<noteq> []
   \<and> messages (run testPlatform useChat
        [SendMessage (js ''oi'') (js ''u'') 1 (js ''a'') 2, ClearMessages, FetchRejected]) = []
   \<and> messages (run testPlatform useChat
        [SendMessage (js ''oi'') (js ''u'') 1 (js ''a'') 2, ClearMessages, FetchResolved 500 True]) = []
   \<and> messages (run testPlatform useChat
        [SendMessage (js ''oi'') (js ''u'') 1 (js ''a'') 2, FetchResolved 200 True, ReadChunk LINE_OL,
         ClearMessages, ReadRejected]) = []"
proof -
  have early: "messages (run testPlatform useChat
        [SendMessage (js ''oi'') (js ''u'') 1 (js ''a'') 2, ClearMessages, e]) = []"
    if "e = FetchRejected \<or> e = FetchResolved 500 True" for e
    using that not_ok_500
    by (auto simp: run_Cons run_Nil sendMessage_accepted [OF useChat_idle(1) oi_nonblank]
        clearMessages_def afterFetch_def fail_def onCatch_def onFinally_def at_def Let_def)
  have "run testPlatform useChat
        ((SendMessage (js ''oi'') (js ''u'') 1 (js ''a'') 2 # FetchResolved 200 True #
          map ReadChunk [LINE_OL]) @ [ClearMessages, ReadRejected]) =
        run testPlatform (run testPlatform useChat (SendMessage (js ''oi'') (js ''u'') 1 (js ''a'') 2 #
          FetchResolved 200 True # map ReadChunk [LINE_OL])) [ClearMessages, ReadRejected]"
    by (rule run_append)
  then have late: "messages (run testPlatform useChat
        [SendMessage (js ''oi'') (js ''u'') 1 (js ''a'') 2, FetchResolved 200 True, ReadChunk LINE_OL,
         ClearMessages, ReadRejected]) = []"
    unfolding streamed [OF useChat_idle(1) oi_nonblank ok_200 useChat_fresh u_not_a]
    by (simp add: run_Cons run_Nil clearMessages_def fail_def onCatch_def onFinally_def at_def Let_def)
  show ?thesis
    using useChat_idle(1) oi_nonblank early late by simp
qed

text \<open>The write goes to the first message with the id: an assistant message
  that shares its id with an earlier message does not receive the fallback text.\<close>

lemma fallback_goes_to_first_match:
  "messages (run testPlatform useChat
      [SendMessage (js ''oi'') (js ''a'') 1 (js ''a'') 2, FetchRejected]) =
     [createMessage (js ''a'') 1 User FALLBACK, createMessage (js ''a'') 2 Assistant []]"
  by (simp add: run_Cons run_Nil sendMessage_accepted [OF useChat_idle(1) oi_nonblank]
      fail_def onCatch_def onFinally_def at_def Let_def createMessage_def useChat_idle(2))

subsection \<open>The lines of a chunk\<close>

lemma processLines_filter:
  "processLines P aid lines ms = processLines P aid (filter (\<lambda>l. startsWith l DATA_PREFIX) lines) ms"
  by (induction lines arbitrary: ms) (simp_all add: Let_def)










subsection \<open>Streaming tokens\<close>

text \<open>
  C6.  A send is accepted in an idle session (the id of its assistant message is
  not the id of another message) and the stream delivers the three lines
  \<open>LINE_OL\<close>, \<open>LINE_A\<close>, \<open>LINE_DONE\<close>, cut into chunks at line ends in any of the four
  ways.  When the stream has ended the assistant message holds \<^verbatim>\<open>Ol\<close> followed by
  the code unit \<open>0xE1\<close>.  In general a payload whose \<^verbatim>\<open>choices[0].delta.content\<close> is
  a non-empty string \<open>t\<close> appends \<open>t\<close> to the first message whose id is \<open>aid\<close>,
  found by \<^verbatim>\<open>findIndex\<close>; a payload where it is absent or empty changes nothing.
\<close>

theorem stream_Ol_a_DONE:
  assumes "\<not> isLoading s" and "trim text \<noteq> []" and "ok status"
    and "\<forall>m\<in>set (messages s). id' m \<noteq> aid" and "uid \<noteq> aid"
    and "chunks = [LINE_OL @ LINE_A @ LINE_DONE] \<or> chunks = [LINE_OL, LINE_A @ LINE_DONE]
       \<or> chunks = [LINE_OL @ LINE_A, LINE_DONE] \<or> chunks = [LINE_OL, LINE_A, LINE_DONE]"
  shows "messages (run P s (SendMessage text uid ut aid at' # FetchResolved status True #
            map ReadChunk chunks @ [ReadDone])) =
           messages s @ [createMessage uid ut User text,
                         createMessage aid at' Assistant (js ''Ol'' @ [0xE1])]
       \<and> (\<forall>data parsed t ms i.
             JSON_parse data = Some parsed \<and> readToken parsed = Inr (Val (JString t)) \<and> t \<noteq> [] \<and>
             findIndex (\<lambda>m. id' m = aid) ms = int i \<and> i < length ms \<longrightarrow>
             handleData P aid data ms = ms[i := (ms ! i)\<lparr>content := content (ms ! i) @ t\<rparr>])
       \<and> (\<forall>data parsed ms.
             JSON_parse data = Some parsed \<and>
             (readToken parsed = Inr Undefined \<or> readToken parsed = Inr (Val (JString []))) \<longrightarrow>
             handleData P aid data ms = ms)"
proof (intro conjI allI impI)
  show "messages (run P s (SendMessage text uid ut aid at' # FetchResolved status True #
            map ReadChunk chunks @ [ReadDone])) =
           messages s @ [createMessage uid ut User text,
                         createMessage aid at' Assistant (js ''Ol'' @ [0xE1])]"
    unfolding finished [OF assms(1-5)]
    using assms(6) by (elim disjE) (simp_all only: example_simps)
next
  fix data parsed t i and ms :: "message list"
  assume "JSON_parse data = Some parsed \<and> readToken parsed = Inr (Val (JString t)) \<and> t \<noteq> [] \<and>
          findIndex (\<lambda>m. id' m = aid) ms = int i \<and> i < length ms"
  then show "handleData P aid data ms = ms[i := (ms ! i)\<lparr>content := content (ms ! i) @ t\<rparr>]"
    by (elim conjE) (rule handleData_token; assumption)
next
  fix data parsed and ms :: "message list"
  assume "JSON_parse data = Some parsed \<and>
          (readToken parsed = Inr Undefined \<or> readToken parsed = Inr (Val (JString [])))"
  then show "handleData P aid data ms = ms"
    by (auto simp: handleData_def tryData_def)
qed

theorem stream_Ol_a_DONE_witness:
  "messages (run testPlatform useChat (SendMessage (js ''oi'') (js ''u'') 1 (js ''a'') 2 #
      FetchResolved 200 True # map ReadChunk [LINE_OL, LINE_A, LINE_DONE] @ [ReadDone])) =
     [createMessage (js ''u'') 1 User (js ''oi''),
      createMessage (js ''a'') 2 Assistant (js ''Ol'' @ [0xE1])]
   \<and> handleData testPlatform (js ''a'') (trim (slice 6 EVENT_OL)) (messages OPENED) =
     [createMessage (js ''u'') 1 User (js ''oi''), createMessage (js ''a'') 2 Assistant (js ''Ol'')]"
proof -
  note inst = stream_Ol_a_DONE [OF useChat_idle(1) oi_nonblank ok_200 useChat_fresh u_not_a,
      of "[LINE_OL, LINE_A, LINE_DONE]" testPlatform 1 2]
  have whole: "messages (run testPlatform useChat (SendMessage (js ''oi'') (js ''u'') 1 (js ''a'') 2 #
      FetchResolved 200 True # map ReadChunk [LINE_OL, LINE_A, LINE_DONE] @ [ReadDone])) =
     [createMessage (js ''u'') 1 User (js ''oi''),
      createMessage (js ''a'') 2 Assistant (js ''Ol'' @ [0xE1])]"
    using inst [THEN conjunct1] by (simp add: useChat_idle)
  have parsed: "JSON_parse (trim (slice 6 EVENT_OL)) = Some (deltaEvent (js ''Ol''))"
    by (simp only: payload_OL parse_OL)
  have found: "findIndex (\<lambda>m. id' m = js ''a'') (messages OPENED) = int 1"
    using u_not_a by (simp add: OPENED(2) createMessage_def)
  have "js ''Ol'' \<noteq> []" and "1 < length (messages OPENED)"
    by (simp_all add: js_def OPENED(2))
  with inst [THEN conjunct2, THEN conjunct1] parsed found readToken_delta [of "js ''Ol''"]
  have "handleData testPlatform (js ''a'') (trim (slice 6 EVENT_OL)) (messages OPENED) =
          (messages OPENED)[1 := (messages OPENED ! 1)\<lparr>content := content (messages OPENED ! 1) @ js ''Ol''\<rparr>]"
    by blast
  then have one: "handleData testPlatform (js ''a'') (trim (slice 6 EVENT_OL)) (messages OPENED) =
     [createMessage (js ''u'') 1 User (js ''oi''), createMessage (js ''a'') 2 Assistant (js ''Ol'')]"
    by (simp add: OPENED(2) createMessage_def)
  show ?thesis
    using whole one by (intro conjI)
qed

subsection \<open>An event split across two chunks\<close>

lemma fragments_join: "FRAGMENT_1 @ FRAGMENT_2 = LINE_OL"
  by (simp add: FRAGMENT_1_def FRAGMENT_2_def LINE_OL_def EVENT_OL_def js_def)

lemma fragment_1:
  "startsWith FRAGMENT_1 DATA_PREFIX"
  "trim (slice 6 FRAGMENT_1) \<noteq> DONE"
  "JSON_parse (trim (slice 6 FRAGMENT_1)) = None"
  "split 0x0A FRAGMENT_1 = [FRAGMENT_1]"
proof -
  have payload: "trim (slice 6 FRAGMENT_1) = js ''{\"choices\":[{\"delta\":{\"con''"
    by (simp add: FRAGMENT_1_def slice_def trim_def js_def isWhiteSpace_def)
  show "startsWith FRAGMENT_1 DATA_PREFIX"
    by (simp add: FRAGMENT_1_def DATA_PREFIX_def startsWith_def js_def)
  show "trim (slice 6 FRAGMENT_1) \<noteq> DONE"
    unfolding payload by (simp add: DONE_def js_def)
  show "JSON_parse (trim (slice 6 FRAGMENT_1)) = None"
    unfolding payload by (simp add: JSON_parse_def js_def isJSONWhitespace_def isDigit_def)
  show "split 0x0A FRAGMENT_1 = [FRAGMENT_1]"
    by (rule split_last) (simp add: FRAGMENT_1_def js_def)
qed

lemma fragment_2:
  "filter (\<lambda>l. startsWith l DATA_PREFIX) (split 0x0A FRAGMENT_2) = []"
  by (simp add: FRAGMENT_2_def DATA_PREFIX_def startsWith_def js_def)

lemma own_FRAGMENT_1: "processLines P aid (FRAGMENT_1 # rest) ms = processLines P aid rest ms"
  by (simp only: line_data [OF fragment_1(1,2)] handleData_unparsed [OF fragment_1(3)])

lemma own_FRAGMENT_2: "processLines P aid (split 0x0A FRAGMENT_2) ms = ms"
  using processLines_filter [of P aid "split 0x0A FRAGMENT_2" ms]
  by (simp only: fragment_2 processLines.simps(1))

text \<open>
  C9.  The line \<open>LINE_OL\<close> arrives in two chunks, \<open>FRAGMENT_1\<close> and \<open>FRAGMENT_2\<close>.  The
  first starts with the prefix and is not JSON; no line of the second starts with
  the prefix.  Delivered whole, the line puts \<^verbatim>\<open>Ol\<close> into the assistant message;
  delivered in the two chunks it puts nothing there: the lines of each chunk are
  split and processed on their own.
\<close>

theorem split_event_loses_token:
  "FRAGMENT_1 @ FRAGMENT_2 = LINE_OL
   \<and> startsWith FRAGMENT_1 DATA_PREFIX
   \<and> JSON_parse (trim (slice 6 FRAGMENT_1)) = None
   \<and> filter (\<lambda>l. startsWith l DATA_PREFIX) (split 0x0A FRAGMENT_2) = []
   \<and> messages (run P useChat (SendMessage (js ''oi'') (js ''u'') 1 (js ''a'') 2 #
        FetchResolved 200 True # map ReadChunk [FRAGMENT_1 @ FRAGMENT_2] @ [ReadDone])) =
       [createMessage (js ''u'') 1 User (js ''oi''), createMessage (js ''a'') 2 Assistant (js ''Ol'')]
   \<and> messages (run P useChat (SendMessage (js ''oi'') (js ''u'') 1 (js ''a'') 2 #
        FetchResolved 200 True # map ReadChunk [FRAGMENT_1, FRAGMENT_2] @ [ReadDone])) =
       [createMessage (js ''u'') 1 User (js ''oi''), createMessage (js ''a'') 2 Assistant []]"
proof -
  have whole: "messages (run P useChat (SendMessage (js ''oi'') (js ''u'') 1 (js ''a'') 2 #
        FetchResolved 200 True # map ReadChunk [FRAGMENT_1 @ FRAGMENT_2] @ [ReadDone])) =
       [createMessage (js ''u'') 1 User (js ''oi''), createMessage (js ''a'') 2 Assistant (js ''Ol'')]"
    unfolding finished [OF useChat_idle(1) oi_nonblank ok_200 useChat_fresh u_not_a] fragments_join
    by (simp only: example_simps useChat_idle(2))
  have parts: "messages (run P useChat (SendMessage (js ''oi'') (js ''u'') 1 (js ''a'') 2 #
        FetchResolved 200 True # map ReadChunk [FRAGMENT_1, FRAGMENT_2] @ [ReadDone])) =
       [createMessage (js ''u'') 1 User (js ''oi''), createMessage (js ''a'') 2 Assistant []]"
    unfolding finished [OF useChat_idle(1) oi_nonblank ok_200 useChat_fresh u_not_a]
    by (simp only: example_simps useChat_idle(2) fragment_1(4) own_FRAGMENT_1 own_FRAGMENT_2)
  show ?thesis
    using fragments_join fragment_1(1,3) fragment_2 whole parts by (intro conjI)
qed

subsection \<open>Payloads that are not JSON\<close>

lemma processLines_drop_unparsed:
  assumes "startsWith line DATA_PREFIX" and "trim (slice 6 line) \<noteq> DONE"
    and "JSON_parse (trim (slice 6 line)) = None"
  shows "processLines P aid (before @ line # rest) ms = processLines P aid (before @ rest) ms"
proof (induction before arbitrary: ms)
  case Nil
  show ?case
    using assms by (simp add: handleData_unparsed)
next
  case (Cons l before)
  then show ?case
    by (simp add: Let_def)
qed

text \<open>
  C7.  A line starts with \<^verbatim>\<open>data: \<close> and \<^verbatim>\<open>JSON.parse\<close> throws on its payload.  (The
  literal \<^verbatim>\<open>[DONE]\<close> is recognised before \<^verbatim>\<open>JSON.parse\<close> is called: it is the end
  marker of the wire format, not a payload that fails to parse.)  Then the
  exception is caught inside the loop: no content changes, the lines after it are
  processed as if the line were not there, and no chunk whatever makes the send
  leave its read loop or log an error.
\<close>

theorem malformed_payload_is_skipped:
  assumes "startsWith line DATA_PREFIX" and "trim (slice 6 line) \<noteq> DONE"
    and "JSON_parse (trim (slice 6 line)) = None"
  shows "tryData P aid (trim (slice 6 line)) ms = Inl SyntaxError
       \<and> handleData P aid (trim (slice 6 line)) ms = ms
       \<and> processLines P aid (before @ line # rest) ms = processLines P aid (before @ rest) ms
       \<and> (task s = AwaitRead aid \<longrightarrow>
            task (step P s (ReadChunk chunk)) = AwaitRead aid
          \<and> isLoading (step P s (ReadChunk chunk)) = isLoading s
          \<and> console (step P s (ReadChunk chunk)) = console s)"
  using assms processLines_drop_unparsed [OF assms]
  by (simp add: tryData_def handleData_unparsed step_chunk del: step.simps)

theorem malformed_payload_is_skipped_witness:
  "startsWith EVENT_BAD DATA_PREFIX \<and> trim (slice 6 EVENT_BAD) \<noteq> DONE
   \<and> JSON_parse (trim (slice 6 EVENT_BAD)) = None
   \<and> processLines testPlatform (js ''a'') [EVENT_BAD, EVENT_OL] (messages OPENED) =
       processLines testPlatform (js ''a'') [EVENT_OL] (messages OPENED)
   \<and> task OPENED = AwaitRead (js ''a'')
   \<and> task (step testPlatform OPENED (ReadChunk EVENT_BAD)) = AwaitRead (js ''a'')
   \<and> console (step testPlatform OPENED (ReadChunk EVENT_BAD)) = console OPENED
   \<and> messages (step testPlatform OPENED (ReadChunk EVENT_BAD)) = messages OPENED"
proof -
  have a: "startsWith EVENT_BAD DATA_PREFIX"
    by (rule events_prefixed)
  have b: "trim (slice 6 EVENT_BAD) \<noteq> DONE"
    by (simp add: payload_BAD payloads_not_DONE)
  have c: "JSON_parse (trim (slice 6 EVENT_BAD)) = None"
    by (simp add: payload_BAD parse_BAD)
  note inst = malformed_payload_is_skipped [OF a b c, of testPlatform "js ''a''" "messages OPENED" "[]" _
      OPENED EVENT_BAD]
  have two: "processLines testPlatform (js ''a'') [EVENT_BAD, EVENT_OL] (messages OPENED) =
       processLines testPlatform (js ''a'') [EVENT_OL] (messages OPENED)"
    using inst [of "[EVENT_OL]", THEN conjunct2, THEN conjunct2, THEN conjunct1]
    by (simp only: append_Nil)
  have one: "processLines testPlatform (js ''a'') [EVENT_BAD] (messages OPENED) = messages OPENED"
    using inst [of "[]", THEN conjunct2, THEN conjunct2, THEN conjunct1]
    by (simp only: append_Nil processLines.simps(1))
  have stay: "task (step testPlatform OPENED (ReadChunk EVENT_BAD)) = AwaitRead (js ''a'')"
    "console (step testPlatform OPENED (ReadChunk EVENT_BAD)) = console OPENED"
    using inst [of "[]"] OPENED(1) by blast+
  have same: "messages (step testPlatform OPENED (ReadChunk EVENT_BAD)) = messages OPENED"
    using one by (simp add: step_chunk [OF OPENED(1)] split_last [OF events_one_line(4)]
        del: step.simps processLines.simps)
  show ?thesis
    using a b c two OPENED(1) stay same by (intro conjI)
qed

subsection \<open>Clearing the conversation\<close>

text \<open>
  C8.  In every state \<^verbatim>\<open>clearMessages()\<close> leaves the message sequence empty and
  the loading flag as it was.
\<close>

theorem clearMessages_empties:
  "messages (clearMessages s) = [] \<and> isLoading (clearMessages s) = isLoading s"
  by (simp add: clearMessages_def)

subsection \<open>Clearing during a stream\<close>

lemma handleData_Nil: "handleData P aid data [] = []"
  by (simp add: handleData_def tryData_def appendToken_def at_def Let_def
      split: option.splits sum.splits jsval.splits)

lemma processLines_Nil: "processLines P aid ls [] = []"
  by (induction ls) (simp_all add: handleData_Nil Let_def)

lemma run_chunks_cleared:
  assumes "task s = AwaitRead aid" and "messages s = []"
  shows "run P s (map ReadChunk chunks) = s"
proof (induction chunks)
  case Nil
  show ?case by (simp add: run_Nil)
next
  case (Cons chunk chunks)
  have "step P s (ReadChunk chunk) = s"
    using assms by (simp add: step_chunk processLines_Nil del: step.simps)
  with Cons show ?case
    by (simp only: list.map run_Cons)
qed

text \<open>
  C10.  \<^verbatim>\<open>clearMessages()\<close> is called while a send reads its stream.  Whatever chunks
  follow, the message sequence stays empty, the send stays in its read loop and
  logs nothing; when the stream then ends or fails, the message sequence is still
  empty (the fallback text is written nowhere) and the session is not loading.
\<close>

theorem clear_while_streaming_drops_writes:
  assumes "task s = AwaitRead aid"
  shows "run P s (ClearMessages # map ReadChunk chunks) = clearMessages s
       \<and> messages (run P s (ClearMessages # map ReadChunk chunks)) = []
       \<and> task (run P s (ClearMessages # map ReadChunk chunks)) = AwaitRead aid
       \<and> console (run P s (ClearMessages # map ReadChunk chunks)) = console s
       \<and> messages (run P s (ClearMessages # map ReadChunk chunks @ [ReadRejected])) = []
       \<and> \<not> isLoading (run P s (ClearMessages # map ReadChunk chunks @ [ReadRejected]))
       \<and> messages (run P s (ClearMessages # map ReadChunk chunks @ [ReadDone])) = []
       \<and> \<not> isLoading (run P s (ClearMessages # map ReadChunk chunks @ [ReadDone]))"
proof -
  have t: "task (clearMessages s) = AwaitRead aid" and e: "messages (clearMessages s) = []"
    using assms by (simp_all add: clearMessages_def)
  have chunks: "run P s (ClearMessages # map ReadChunk chunks) = clearMessages s"
    using run_chunks_cleared [OF t e] by (simp add: run_Cons)
  have last: "run P s (ClearMessages # map ReadChunk chunks @ [ev]) = step P (clearMessages s) ev" for ev
  proof -
    have "run P s ((ClearMessages # map ReadChunk chunks) @ [ev]) =
            step P (run P s (ClearMessages # map ReadChunk chunks)) ev"
      by (simp only: run_append run_Cons run_Nil)
    then show ?thesis
      by (simp only: chunks append_Cons)
  qed
  have absent: "findIndex (\<lambda>m. id' m = aid) [] = - 1"
    by simp
  show ?thesis
    using t e
    by (simp add: chunks last fail_def onCatch_def onFinally_def at_def Let_def)
      (simp add: clearMessages_def)
qed

theorem clear_while_streaming_drops_writes_witness:
  "task (run testPlatform useChat (SendMessage (js ''oi'') (js ''u'') 1 (js ''a'') 2 #
      FetchResolved 200 True # map ReadChunk [LINE_OL])) = AwaitRead (js ''a'')
   \<and> messages (run testPlatform useChat (SendMessage (js ''oi'') (js ''u'') 1 (js ''a'') 2 #
      FetchResolved 200 True # map ReadChunk [LINE_OL])) =
     [createMessage (js ''u'') 1 User (js ''oi''), createMessage (js ''a'') 2 Assistant (js ''Ol'')]
   \<and> messages (run testPlatform
       (run testPlatform useChat (SendMessage (js ''oi'') (js ''u'') 1 (js ''a'') 2 #
          FetchResolved 200 True # map ReadChunk [LINE_OL]))
       (ClearMessages # map ReadChunk [LINE_A] @ [ReadRejected])) = []
   \<and> \<not> isLoading (run testPlatform
       (run testPlatform useChat (SendMessage (js ''oi'') (js ''u'') 1 (js ''a'') 2 #
          FetchResolved 200 True # map ReadChunk [LINE_OL]))
       (ClearMessages # map ReadChunk [LINE_A] @ [ReadRejected]))"
proof -
  define s where "s = run testPlatform useChat (SendMessage (js ''oi'') (js ''u'') 1 (js ''a'') 2 #
      FetchResolved 200 True # map ReadChunk [LINE_OL])"
  have t: "task s = AwaitRead (js ''a'')"
    unfolding s_def streamed [OF useChat_idle(1) oi_nonblank ok_200 useChat_fresh u_not_a]
    by simp
  have m: "messages s =
     [createMessage (js ''u'') 1 User (js ''oi''), createMessage (js ''a'') 2 Assistant (js ''Ol'')]"
    unfolding s_def streamed [OF useChat_idle(1) oi_nonblank ok_200 useChat_fresh u_not_a]
    by (simp add: useChat_idle(2)) (simp only: example_simps)
  from clear_while_streaming_drops_writes [OF t, of testPlatform "[LINE_A]"] t m
  show ?thesis
    unfolding s_def by blast
qed

end
